theory Spec2Isabelle
  imports
    Main
    "HOL-Library.Char_ord"
    "HOL-Library.List_Lexorder"
    "HOL-Library.Product_Lexorder"
    "HOL-Library.Option_ord"
    "HOL-Library.Multiset"
begin

section \<open>Parsed XML, as \<^verbatim>\<open>xml.etree.ElementTree\<close> presents it\<close>

text \<open>
  \<^verbatim>\<open>tools/compare_dacpacs.py\<close> works on ElementTree nodes. A node has a tag (with the
  namespace in braces in front), a dictionary of attributes, an optional text and the list
  of its children in document order. The attribute dictionary is an association list whose
  keys are distinct (a parser rejects a repeated attribute). A Python string is a
  \<^typ>\<open>string\<close>; a \<^typ>\<open>char\<close> stands for one code point below 256, and the order on
  strings is the lexicographic order on code points, as Python's is.
\<close>

datatype xml =
  Elem (tag: string) (attrib: "(string \<times> string) list") (etext: "string option")
    (children: "xml list")

text \<open>Exceptions that the comparison can raise, as values.\<close>

datatype error = TypeError | AttributeError | ParseError | KeyError

definition rbind :: "error + 'a \<Rightarrow> ('a \<Rightarrow> error + 'b) \<Rightarrow> error + 'b" where
  "rbind m f = (case m of Inl e \<Rightarrow> Inl e | Inr x \<Rightarrow> f x)"

definition NS :: string where
  "NS = ''http://schemas.microsoft.com/sqlserver/dac/Serialization/2012/02''"

definition NS_BRACKET :: string where
  "NS_BRACKET = ''{'' @ NS @ ''}''"

fun startswith :: "string \<Rightarrow> string \<Rightarrow> bool" where
  "startswith s [] = True"
| "startswith [] (p # ps) = False"
| "startswith (c # s) (p # ps) = (c = p \<and> startswith s ps)"

definition strip_ns :: "string \<Rightarrow> string" where
  "strip_ns t = (if startswith t NS_BRACKET then drop (length NS_BRACKET) t else t)"

text \<open>\<^verbatim>\<open>elem.get(k)\<close>, \<^verbatim>\<open>elem.get(k, default)\<close>, \<^verbatim>\<open>elem.findall(tag)\<close> and
  \<^verbatim>\<open>elem.find(tag)\<close> (direct children only, in document order).\<close>

definition xml_get :: "xml \<Rightarrow> string \<Rightarrow> string option" where
  "xml_get e k = map_of (attrib e) k"

definition xml_get_default :: "xml \<Rightarrow> string \<Rightarrow> string \<Rightarrow> string" where
  "xml_get_default e k d = (case xml_get e k of None \<Rightarrow> d | Some v \<Rightarrow> v)"

definition findall :: "xml \<Rightarrow> string \<Rightarrow> xml list" where
  "findall e t = filter (\<lambda>c. tag c = NS_BRACKET @ t) (children e)"

definition find_first :: "xml \<Rightarrow> string \<Rightarrow> xml option" where
  "find_first e t = (case findall e t of [] \<Rightarrow> None | c # _ \<Rightarrow> Some c)"

text \<open>\<^verbatim>\<open>rel_elem.find("{NS}Relationship[@Name='rel_name']")\<close>: the first child with that
  tag whose \<^verbatim>\<open>Name\<close> attribute is \<^verbatim>\<open>rel_name\<close>.\<close>

definition find_relationship :: "xml \<Rightarrow> string \<Rightarrow> xml option" where
  "find_relationship e rel_name =
     (case filter (\<lambda>c. xml_get c ''Name'' = Some rel_name) (findall e ''Relationship'') of
        [] \<Rightarrow> None | c # _ \<Rightarrow> Some c)"

section \<open>Python strings\<close>

text \<open>\<^verbatim>\<open>str.strip()\<close> and \<^verbatim>\<open>str.rstrip()\<close> remove the characters for which
  \<^verbatim>\<open>str.isspace\<close> holds; below 256 these are the code points listed here.\<close>

definition is_space :: "char \<Rightarrow> bool" where
  "is_space c = (of_char c \<in> {9, 10, 11, 12, 13, 28, 29, 30, 31, 32, 133, 160 :: nat})"

definition lstrip :: "string \<Rightarrow> string" where
  "lstrip s = dropWhile is_space s"

definition rstrip :: "string \<Rightarrow> string" where
  "rstrip s = rev (dropWhile is_space (rev s))"

definition strip :: "string \<Rightarrow> string" where
  "strip s = rstrip (lstrip s)"

text \<open>\<^verbatim>\<open>(x or "")\<close> on an optional string.\<close>

definition or_empty :: "string option \<Rightarrow> string" where
  "or_empty x = (case x of None \<Rightarrow> [] | Some s \<Rightarrow> s)"

text \<open>Truth value of an optional string: \<^verbatim>\<open>None\<close> and \<^verbatim>\<open>""\<close> are false.\<close>

definition truthy :: "string option \<Rightarrow> bool" where
  "truthy x = (x \<noteq> None \<and> x \<noteq> Some [])"

text \<open>What an f-string prints for a value that is a string or \<^verbatim>\<open>None\<close>.\<close>

definition fmt :: "string option \<Rightarrow> string" where
  "fmt x = (case x of None \<Rightarrow> ''None'' | Some s \<Rightarrow> s)"

fun join :: "string \<Rightarrow> string list \<Rightarrow> string" where
  "join sep [] = []"
| "join sep [x] = x"
| "join sep (x # y # ys) = x @ sep @ join sep (y # ys)"

section \<open>Identity of a model element\<close>

text \<open>A key is a Python tuple of one or two components; the type is what
  \<^verbatim>\<open>elem.get("Type")\<close> returns, so it is \<^verbatim>\<open>None\<close> when the attribute is absent.\<close>

datatype key = Key1 "string option" | Key2 "string option" string

definition get_ref_name :: "xml \<Rightarrow> string \<Rightarrow> string option" where
  "get_ref_name rel_elem rel_name =
     (case find_relationship rel_elem rel_name of
        None \<Rightarrow> None
      | Some rel \<Rightarrow>
          (case find_first rel ''Entry'' of
             None \<Rightarrow> None
           | Some entry \<Rightarrow>
               (case find_first entry ''References'' of
                  Some ref \<Rightarrow> xml_get ref ''Name''
                | None \<Rightarrow> None)))"

definition element_key :: "xml \<Rightarrow> key" where
  "element_key elem =
     (let elem_type = xml_get elem ''Type'';
          name = xml_get elem ''Name''
      in case name of
           Some n \<Rightarrow> Key2 elem_type n
         | None \<Rightarrow>
            (let defining_table = get_ref_name elem ''DefiningTable'';
                 for_column = get_ref_name elem ''ForColumn'';
                 defining_column = get_ref_name elem ''DefiningColumn''
             in if truthy defining_table \<and> truthy for_column then
                  Key2 elem_type
                    (''DefiningTable='' @ fmt defining_table @ '',ForColumn='' @ fmt for_column)
                else if truthy defining_table \<and> truthy defining_column then
                  Key2 elem_type
                    (''DefiningTable='' @ fmt defining_table @ '',DefiningColumn=''
                       @ fmt defining_column)
                else if truthy defining_table then
                  Key2 elem_type (''DefiningTable='' @ fmt defining_table)
                else Key1 elem_type))"

definition element_display_key :: "key \<Rightarrow> string option" where
  "element_display_key k =
     (case k of Key1 t \<Rightarrow> t | Key2 t n \<Rightarrow> Some (fmt t @ '' '' @ n))"

text \<open>
  What the specification calls resolving a relationship: the first child
  \<^verbatim>\<open>Relationship\<close> with the given name, its first \<^verbatim>\<open>Entry\<close>, the first
  \<^verbatim>\<open>References\<close> of that entry, and a non-empty \<^verbatim>\<open>Name\<close> on it. This definition
  follows the specification's words and walks the children itself.
\<close>

fun first_child :: "(xml \<Rightarrow> bool) \<Rightarrow> xml list \<Rightarrow> xml option" where
  "first_child P [] = None"
| "first_child P (c # cs) = (if P c then Some c else first_child P cs)"

definition resolves_to :: "xml \<Rightarrow> string \<Rightarrow> string \<Rightarrow> bool" where
  "resolves_to elem rel_name x =
     (\<exists>rel entry ref.
        first_child (\<lambda>c. tag c = NS_BRACKET @ ''Relationship''
                        \<and> map_of (attrib c) ''Name'' = Some rel_name) (children elem) = Some rel
      \<and> first_child (\<lambda>c. tag c = NS_BRACKET @ ''Entry'') (children rel) = Some entry
      \<and> first_child (\<lambda>c. tag c = NS_BRACKET @ ''References'') (children entry) = Some ref
      \<and> map_of (attrib ref) ''Name'' = Some x \<and> x \<noteq> [])"

definition resolves :: "xml \<Rightarrow> string \<Rightarrow> bool" where
  "resolves elem rel_name = (\<exists>x. resolves_to elem rel_name x)"

section \<open>More of Python\<close>

definition squote :: char where "squote = CHR 0x27"
definition dquote :: char where "dquote = CHR 0x22"
definition backslash :: char where "backslash = CHR 0x5C"

definition digit_char :: "nat \<Rightarrow> char" where
  "digit_char n = ''0123456789abcdef'' ! (n mod 16)"

definition printable :: "char \<Rightarrow> bool" where
  "printable c = (let n = of_char c :: nat in (32 \<le> n \<and> n < 127) \<or> (161 \<le> n \<and> n \<noteq> 173))"

definition repr_char :: "char \<Rightarrow> char \<Rightarrow> string" where
  "repr_char q c =
     (if c = q \<or> c = backslash then [backslash, c]
      else if c = CHR 0x09 then [backslash, CHR ''t'']
      else if c = CHR 0x0A then [backslash, CHR ''n'']
      else if c = CHR 0x0D then [backslash, CHR ''r'']
      else if printable c then [c]
      else [backslash, CHR ''x'', digit_char (of_char c div 16), digit_char (of_char c mod 16)])"

definition repr_str :: "string \<Rightarrow> string" where
  "repr_str s =
     (let q = (if squote \<in> set s \<and> dquote \<notin> set s then dquote else squote)
      in [q] @ concat (map (repr_char q) s) @ [q])"

definition repr_opt :: "string option \<Rightarrow> string" where
  "repr_opt x = (case x of None \<Rightarrow> ''None'' | Some s \<Rightarrow> repr_str s)"

fun str_nat :: "nat \<Rightarrow> string" where
  "str_nat n =
     (if n < 10 then [digit_char n] else str_nat (n div 10) @ [digit_char (n mod 10)])"

declare str_nat.simps [simp del]

text \<open>A dictionary keeps its keys in insertion order; assigning to a key that is present
  keeps the key's place.\<close>

fun dict_set :: "('k \<times> 'v) list \<Rightarrow> 'k \<Rightarrow> 'v \<Rightarrow> ('k \<times> 'v) list" where
  "dict_set [] k v = [(k, v)]"
| "dict_set ((k', v') # d) k v =
     (if k' = k then (k, v) # d else (k', v') # dict_set d k v)"

definition dict_pop :: "('k \<times> 'v) list \<Rightarrow> 'k \<Rightarrow> ('k \<times> 'v) list" where
  "dict_pop d k = filter (\<lambda>kv. fst kv \<noteq> k) d"

definition dict_keys :: "('k \<times> 'v) list \<Rightarrow> 'k list" where
  "dict_keys d = map fst d"

text \<open>\<^verbatim>\<open>d.get(k)\<close> where the values are strings or \<^verbatim>\<open>None\<close>: a missing key
  gives \<^verbatim>\<open>None\<close>, as a key stored with \<^verbatim>\<open>None\<close> does.\<close>

definition dict_get :: "('k \<times> 'v option) list \<Rightarrow> 'k \<Rightarrow> 'v option" where
  "dict_get d k = (case map_of d k of None \<Rightarrow> None | Some v \<Rightarrow> v)"

definition dict_get_default :: "('k \<times> 'v) list \<Rightarrow> 'k \<Rightarrow> 'v \<Rightarrow> 'v" where
  "dict_get_default d k dflt = (case map_of d k of None \<Rightarrow> dflt | Some v \<Rightarrow> v)"

definition repr_dict :: "(string option \<times> string option) list \<Rightarrow> string" where
  "repr_dict d =
     ''{'' @ join '', '' (map (\<lambda>kv. repr_opt (fst kv) @ '': '' @ repr_opt (snd kv)) d) @ ''}''"

definition repr_pair :: "string \<Rightarrow> string \<Rightarrow> string" where
  "repr_pair a b = ''('' @ a @ '', '' @ b @ '')''"

definition repr_list :: "string list \<Rightarrow> string" where
  "repr_list xs = ''['' @ join '', '' xs @ '']''"

subsection \<open>Sorting\<close>

text \<open>
  Python's \<^verbatim>\<open>sorted\<close> and \<^verbatim>\<open>list.sort\<close> compare elements with \<^verbatim>\<open><\<close>, which raises
  \<^verbatim>\<open>TypeError\<close> between \<^verbatim>\<open>None\<close> and a string (and between \<^verbatim>\<open>None\<close> and
  \<^verbatim>\<open>None\<close>). Tuples and lists are compared at their first unequal component. The
  model raises when some two elements of the list cannot be compared, and otherwise
  returns the stable sort. Every sort must compare each element of a list of two or more
  with another one, so the model is exact when at most one element is \<^verbatim>\<open>None\<close> (the
  names of a dictionary, its items, the display forms of distinct keys) and on lists of at
  most two elements; on a longer list of annotations the source may happen not to
  compare an incomparable pair, and then returns where the model raises.
\<close>

fun all_pairs :: "('a \<Rightarrow> 'a \<Rightarrow> bool) \<Rightarrow> 'a list \<Rightarrow> bool" where
  "all_pairs P [] = True"
| "all_pairs P (x # xs) = ((\<forall>y\<in>set xs. P x y \<and> P y x) \<and> all_pairs P xs)"

definition py_sort ::
  "('k \<Rightarrow> 'k \<Rightarrow> bool) \<Rightarrow> ('a \<Rightarrow> 'k::linorder) \<Rightarrow> 'a list \<Rightarrow> error + 'a list" where
  "py_sort lt_ok f xs =
     (if all_pairs (\<lambda>a b. lt_ok (f a) (f b)) xs then Inr (sort_key f xs) else Inl TypeError)"

definition lt_ok_opt :: "string option \<Rightarrow> string option \<Rightarrow> bool" where
  "lt_ok_opt a b = (a \<noteq> None \<and> b \<noteq> None)"

definition lt_ok_item ::
  "string option \<times> string option \<Rightarrow> string option \<times> string option \<Rightarrow> bool" where
  "lt_ok_item x y =
     (if fst x \<noteq> fst y then lt_ok_opt (fst x) (fst y)
      else if snd x \<noteq> snd y then lt_ok_opt (snd x) (snd y)
      else True)"

fun lt_ok_items ::
  "(string option \<times> string option) list \<Rightarrow> (string option \<times> string option) list \<Rightarrow> bool" where
  "lt_ok_items [] ys = True"
| "lt_ok_items (x # xs) [] = True"
| "lt_ok_items (x # xs) (y # ys) = (if x = y then lt_ok_items xs ys else lt_ok_item x y)"

type_synonym annotation = "string \<times> (string option \<times> string option) list"

definition lt_ok_ann :: "annotation \<Rightarrow> annotation \<Rightarrow> bool" where
  "lt_ok_ann a b = (if fst a \<noteq> fst b then True else lt_ok_items (snd a) (snd b))"

fun traverse :: "('a \<Rightarrow> error + 'b) \<Rightarrow> 'a list \<Rightarrow> error + 'b list" where
  "traverse f [] = Inr []"
| "traverse f (x # xs) = rbind (f x) (\<lambda>y. rbind (traverse f xs) (\<lambda>ys. Inr (y # ys)))"

section \<open>Properties, relationships, annotations\<close>

definition prop_value :: "xml \<Rightarrow> string option" where
  "prop_value prop =
     (case xml_get prop ''Value'' of
        Some v \<Rightarrow> Some v
      | None \<Rightarrow>
          (case find_first prop ''Value'' of
             Some val_elem \<Rightarrow> Some (strip (or_empty (etext val_elem)))
           | None \<Rightarrow> None))"

type_synonym props = "(string option \<times> string option) list"

definition get_properties :: "xml \<Rightarrow> props" where
  "get_properties elem =
     foldl (\<lambda>props prop. dict_set props (xml_get prop ''Name'') (prop_value prop)) []
       (findall elem ''Property'')"

definition ref_key :: "xml \<Rightarrow> string" where
  "ref_key ref =
     (let ref_key = xml_get_default ref ''Name'' [];
          ext = xml_get ref ''ExternalSource''
      in if truthy ext then ref_key @ ''@'' @ fmt ext else ref_key)"

definition ann_part :: "xml \<Rightarrow> string" where
  "ann_part ann =
     (let ann_type = xml_get_default ann ''Type'' [];
          ann_props = dict_pop (get_properties ann) (Some ''Disambiguator'')
      in ''A:'' @ ann_type @ ''='' @ repr_dict ann_props)"

definition prop_part :: "xml \<Rightarrow> string" where
  "prop_part prop = ''P:'' @ fmt (xml_get prop ''Name'') @ ''='' @ fmt (prop_value prop)"

lemma size_findall [termination_simp]: "c \<in> set (findall e t) \<Longrightarrow> size c < size e"
  by (cases e) (auto simp: findall_def less_Suc_eq_le intro: size_list_estimation')

lemma size_find_first [termination_simp]: "find_first e t = Some c \<Longrightarrow> size c < size e"
  using size_findall [of c e t] by (auto simp: find_first_def split: list.splits)

function inline_element_fingerprint :: "xml \<Rightarrow> string" where
  "inline_element_fingerprint elem =
     (let type_part = xml_get_default elem ''Type'' [];
          prop_parts = sort (map prop_part (findall elem ''Property''));
          rel_parts = sort (concat (map (\<lambda>rel.
                concat (map (\<lambda>entry.
                  case find_first entry ''References'' of
                    Some ref \<Rightarrow> [''R:'' @ fmt (xml_get rel ''Name'') @ ''='' @ ref_key ref]
                  | None \<Rightarrow>
                     (case find_first entry ''Element'' of
                        Some inner \<Rightarrow>
                          [''R:'' @ fmt (xml_get rel ''Name'') @ ''=(''
                             @ inline_element_fingerprint inner @ '')'']
                      | None \<Rightarrow> []))
                  (findall rel ''Entry'')))
                (findall elem ''Relationship'')));
          ann_parts = sort (map ann_part (findall elem ''AttachedAnnotation''))
      in join ''|'' ([type_part] @ prop_parts @ rel_parts @ ann_parts))"
  by pat_completeness auto
termination
proof (relation "measure size", goal_cases)
  case 1
  show ?case by simp
next
  case (2 elem type_part prop_parts rel entry inner)
  then have "size inner < size entry" "size entry < size rel" "size rel < size elem"
    by (auto dest: size_find_first size_findall)
  then show ?case by simp
qed

declare inline_element_fingerprint.simps [simp del]

type_synonym entry = "string \<times> string"

definition entry_of :: "xml \<Rightarrow> entry list" where
  "entry_of entry =
     (case find_first entry ''References'' of
        Some ref \<Rightarrow> [(''ref'', ref_key ref)]
      | None \<Rightarrow>
          (case find_first entry ''Element'' of
             Some inline \<Rightarrow> [(''inline'', inline_element_fingerprint inline)]
           | None \<Rightarrow> []))"

type_synonym rels = "(string option \<times> entry list) list"

definition get_relationships :: "xml \<Rightarrow> rels" where
  "get_relationships elem =
     foldl (\<lambda>rels rel.
              dict_set rels (xml_get rel ''Name'') (concat (map entry_of (findall rel ''Entry''))))
       [] (findall elem ''Relationship'')"

definition ann_entry :: "xml \<Rightarrow> error + annotation" where
  "ann_entry ann =
     (let ann_type = xml_get_default ann ''Type'' [];
          props = dict_pop (get_properties ann) (Some ''Disambiguator'')
      in rbind (py_sort lt_ok_item (\<lambda>x. x) props) (\<lambda>items. Inr (ann_type, items)))"

definition get_annotations :: "xml \<Rightarrow> error + annotation list" where
  "get_annotations elem =
     rbind (traverse ann_entry (findall elem ''AttachedAnnotation''))
       (\<lambda>anns. py_sort lt_ok_ann (\<lambda>x. x) anns)"

text \<open>\<^verbatim>\<open>str(e)\<close> of a relationship entry and of an annotation.\<close>

definition str_entry :: "entry \<Rightarrow> string" where
  "str_entry e = repr_pair (repr_str (fst e)) (repr_str (snd e))"

definition str_ann :: "annotation \<Rightarrow> string" where
  "str_ann a =
     repr_pair (repr_str (fst a))
       (repr_list (map (\<lambda>kv. repr_pair (repr_opt (fst kv)) (repr_opt (snd kv))) (snd a)))"

definition quoted :: "string \<Rightarrow> string" where
  "quoted s = [dquote] @ s @ [dquote]"

definition prop_diff :: "props \<Rightarrow> props \<Rightarrow> string option \<Rightarrow> string list" where
  "prop_diff props_a props_b name =
     (let val_a = dict_get props_a name;
          val_b = dict_get props_b name
      in if val_a \<noteq> val_b then
           (if name \<notin> set (dict_keys props_b) then
              [''    Property '' @ quoted (fmt name) @ '': missing in dotnet, rust=''
                 @ quoted (fmt val_a)]
            else if name \<notin> set (dict_keys props_a) then
              [''    Property '' @ quoted (fmt name) @ '': dotnet='' @ quoted (fmt val_b)
                 @ '', missing in rust'']
            else
              [''    Property '' @ quoted (fmt name) @ '': dotnet='' @ quoted (fmt val_b)
                 @ '', rust='' @ quoted (fmt val_a)])
         else [])"

definition rel_diff :: "rels \<Rightarrow> rels \<Rightarrow> string option \<Rightarrow> string list" where
  "rel_diff rels_a rels_b name =
     (let entries_a = dict_get_default rels_a name [];
          entries_b = dict_get_default rels_b name []
      in if entries_a \<noteq> entries_b then
           (if name \<notin> set (dict_keys rels_b) then
              [''    Relationship '' @ quoted (fmt name) @ '': missing in dotnet, rust has ''
                 @ str_nat (length entries_a) @ '' entries'']
            else if name \<notin> set (dict_keys rels_a) then
              [''    Relationship '' @ quoted (fmt name) @ '': dotnet has ''
                 @ str_nat (length entries_b) @ '' entries, missing in rust'']
            else
              (let set_a = set (map str_entry entries_a);
                   set_b = set (map str_entry entries_b);
                   only_rust = set_a - set_b;
                   only_dotnet = set_b - set_a
               in if only_rust \<noteq> {} \<or> only_dotnet \<noteq> {} then
                    [''    Relationship '' @ quoted (fmt name) @ '': ''
                       @ str_nat (card only_dotnet) @ '' only in dotnet, ''
                       @ str_nat (card only_rust) @ '' only in rust'']
                  else []))
         else [])"

definition of_type :: "string \<Rightarrow> annotation list \<Rightarrow> annotation list" where
  "of_type ann_type anns = filter (\<lambda>a. fst a = ann_type) anns"

definition count_info :: "annotation list \<Rightarrow> annotation list \<Rightarrow> string" where
  "count_info rust_of_type dotnet_of_type =
     (if length rust_of_type \<noteq> length dotnet_of_type then
        '' (rust='' @ str_nat (length rust_of_type) @ '', dotnet=''
          @ str_nat (length dotnet_of_type) @ '')''
      else [])"

definition ann_type_diff :: "annotation list \<Rightarrow> annotation list \<Rightarrow> string \<Rightarrow> string list" where
  "ann_type_diff anns_a anns_b ann_type =
     (let rust_of_type = of_type ann_type anns_a;
          dotnet_of_type = of_type ann_type anns_b
      in if rust_of_type \<noteq> dotnet_of_type then
           [''    Annotation '' @ quoted ann_type @ '': differs''
              @ count_info rust_of_type dotnet_of_type]
         else [])"

definition ann_diff :: "annotation list \<Rightarrow> annotation list \<Rightarrow> string list" where
  "ann_diff anns_a anns_b =
     (if anns_a \<noteq> anns_b then
        (let set_a = set (map str_ann anns_a);
             set_b = set (map str_ann anns_b);
             only_rust = set_a - set_b;
             only_dotnet = set_b - set_a
         in if only_rust \<noteq> {} \<or> only_dotnet \<noteq> {} then
              (let types_affected = remdups (map fst (anns_a @ anns_b))
               in concat (map (ann_type_diff anns_a anns_b) (sort types_affected)))
            else [])
      else [])"

definition diff_element :: "xml \<Rightarrow> xml \<Rightarrow> error + string list" where
  "diff_element elem_a elem_b =
     (let props_a = get_properties elem_a;
          props_b = get_properties elem_b
      in rbind (py_sort lt_ok_opt (\<lambda>x. x) (remdups (dict_keys props_a @ dict_keys props_b)))
        (\<lambda>all_prop_names.
           let rels_a = get_relationships elem_a;
               rels_b = get_relationships elem_b
           in rbind (py_sort lt_ok_opt (\<lambda>x. x) (remdups (dict_keys rels_a @ dict_keys rels_b)))
             (\<lambda>all_rel_names.
                rbind (get_annotations elem_a) (\<lambda>anns_a.
                rbind (get_annotations elem_b) (\<lambda>anns_b.
                  Inr (concat (map (prop_diff props_a props_b) all_prop_names)
                       @ concat (map (rel_diff rels_a rels_b) all_rel_names)
                       @ ann_diff anns_a anns_b))))))"

definition is_disambiguator :: "xml \<Rightarrow> bool" where
  "is_disambiguator p =
     (tag p = NS_BRACKET @ ''Property'' \<and> xml_get p ''Name'' = Some ''Disambiguator'')"

definition same_but_disambiguator :: "xml \<Rightarrow> xml \<Rightarrow> bool" where
  "same_but_disambiguator x y =
     (tag x = tag y \<and> attrib x = attrib y \<and> etext x = etext y
      \<and> filter (\<lambda>p. \<not> is_disambiguator p) (children x)
          = filter (\<lambda>p. \<not> is_disambiguator p) (children y))"

definition differ_in_disambiguators :: "xml \<Rightarrow> xml \<Rightarrow> bool" where
  "differ_in_disambiguators a b =
     (tag a = tag b \<and> attrib a = attrib b \<and> etext a = etext b
      \<and> list_all2 (\<lambda>c d. c = d \<or> (tag c = NS_BRACKET @ ''AttachedAnnotation''
                                    \<and> same_but_disambiguator c d))
           (children a) (children b))"

section \<open>Files of a package\<close>

text \<open>
  A package is taken as already extracted: a directory is a dictionary from the names of
  its top-level files to their contents. A file offers the two views the program takes
  of it: the lines that \<^verbatim>\<open>readlines\<close> returns, and the tree that \<^verbatim>\<open>ET.parse\<close>
  returns, \<^verbatim>\<open>None\<close> standing for a document that does not parse (the parser raises).
  The text of the diffs that \<^verbatim>\<open>difflib\<close> produces is report text only and is left
  out: a comparison of two files yields its status.
\<close>

record pkg_file =
  flines :: "string list"
  fxml :: "xml option"

type_synonym directory = "(string \<times> pkg_file) list"

datatype status = Ok | Different | Missing_in_rust | Missing_in_dotnet

definition compare_text_files :: "pkg_file option \<Rightarrow> pkg_file option \<Rightarrow> status option" where
  "compare_text_files path_a path_b =
     (case (path_a, path_b) of
        (None, None) \<Rightarrow> None
      | (None, Some b) \<Rightarrow> Some Missing_in_rust
      | (Some a, None) \<Rightarrow> Some Missing_in_dotnet
      | (Some a, Some b) \<Rightarrow>
          (let lines_a = map rstrip (flines a);
               lines_b = map rstrip (flines b)
           in if lines_a = lines_b then Some Ok else Some Different))"

definition xml_to_canonical :: "xml \<Rightarrow> string" where
  "xml_to_canonical elem =
     (let parts = [strip_ns (tag elem)]
                  @ map (\<lambda>k. k @ ''='' @ dict_get_default (attrib elem) k [])
                      (sort (dict_keys (attrib elem)));
          text = strip (or_empty (etext elem))
      in join ''|'' (if text \<noteq> [] then parts @ [''text='' @ text] else parts))"

fun flatten :: "xml \<Rightarrow> string \<Rightarrow> (string \<times> string) list" where
  "flatten (Elem t a x cs) path =
     (let current = path @ ''/'' @ strip_ns t
      in (current, xml_to_canonical (Elem t a x cs))
         # concat (map (\<lambda>child. flatten child current) (sort_key xml_to_canonical cs)))"

definition parse :: "pkg_file \<Rightarrow> error + xml" where
  "parse f = (case fxml f of None \<Rightarrow> Inl ParseError | Some t \<Rightarrow> Inr t)"

definition compare_simple_xml :: "pkg_file option \<Rightarrow> pkg_file option \<Rightarrow> error + status option" where
  "compare_simple_xml path_a path_b =
     (case (path_a, path_b) of
        (None, None) \<Rightarrow> Inr None
      | (None, Some b) \<Rightarrow> Inr (Some Missing_in_rust)
      | (Some a, None) \<Rightarrow> Inr (Some Missing_in_dotnet)
      | (Some a, Some b) \<Rightarrow>
          rbind (parse a) (\<lambda>tree_a.
          rbind (parse b) (\<lambda>tree_b.
            let flat_a = flatten tree_a [];
                flat_b = flatten tree_b []
            in if flat_a = flat_b then Inr (Some Ok) else Inr (Some Different))))"

section \<open>Header and model\<close>

text \<open>Equality of two dictionaries does not look at the order of their keys.\<close>

definition dict_eq :: "('k \<times> 'v) list \<Rightarrow> ('k \<times> 'v) list \<Rightarrow> bool" where
  "dict_eq d e = (set d = set e)"

type_synonym metas = "(string \<times> string) list"

definition index_custom_data :: "xml option \<Rightarrow> ((string \<times> string) \<times> metas) list" where
  "index_custom_data header =
     (case header of
        None \<Rightarrow> []
      | Some h \<Rightarrow>
          foldl (\<lambda>result cd.
                   dict_set result
                     (xml_get_default cd ''Category'' [], xml_get_default cd ''Type'' [])
                     (foldl (\<lambda>metas m.
                               dict_set metas (xml_get_default m ''Name'' [])
                                 (xml_get_default m ''Value'' []))
                        [] (findall cd ''Metadata'')))
            [] (findall h ''CustomData''))"

definition custom_data_label :: "string \<times> string \<Rightarrow> string" where
  "custom_data_label key =
     (if snd key \<noteq> [] then ''CustomData('' @ fst key @ '', '' @ snd key @ '')''
      else ''CustomData('' @ fst key @ '')'')"

definition meta_diff :: "metas \<Rightarrow> metas \<Rightarrow> string \<Rightarrow> string list" where
  "meta_diff ma mb mk =
     (let va = map_of ma mk; vb = map_of mb mk
      in if va \<noteq> vb then
           [''    '' @ mk @ '': dotnet='' @ quoted (fmt vb) @ '', rust='' @ quoted (fmt va)]
         else [])"

definition header_key_diff ::
  "((string \<times> string) \<times> metas) list \<Rightarrow> ((string \<times> string) \<times> metas) list
     \<Rightarrow> string \<times> string \<Rightarrow> string list" where
  "header_key_diff cd_a cd_b key =
     (case (map_of cd_a key, map_of cd_b key) of
        (_, None) \<Rightarrow> [''  '' @ custom_data_label key @ '': missing in dotnet'']
      | (None, Some mb) \<Rightarrow> [''  '' @ custom_data_label key @ '': missing in rust'']
      | (Some ma, Some mb) \<Rightarrow>
          (if \<not> dict_eq ma mb then
             (''  '' @ custom_data_label key @ '':'')
             # concat (map (meta_diff ma mb) (sort (remdups (dict_keys ma @ dict_keys mb))))
           else []))"

definition compare_header :: "xml option \<Rightarrow> xml option \<Rightarrow> status \<times> string list" where
  "compare_header header_a header_b =
     (let cd_a = index_custom_data header_a;
          cd_b = index_custom_data header_b;
          all_keys = sort (remdups (dict_keys cd_a @ dict_keys cd_b));
          diffs = concat (map (header_key_diff cd_a cd_b) all_keys)
      in if diffs = [] then (Ok, []) else (Different, diffs))"

definition index_elements :: "xml \<Rightarrow> (key \<times> xml) list \<times> key list" where
  "index_elements model =
     foldl (\<lambda>(index, duplicates) elem.
              let key = element_key elem
              in (dict_set index key elem,
                  if key \<in> set (dict_keys index) then duplicates @ [key] else duplicates))
       ([], []) (findall model ''Element'')"

definition duplicate_warning :: "string \<Rightarrow> key list \<Rightarrow> string list" where
  "duplicate_warning side dupes =
     (if dupes \<noteq> [] then
        (''WARNING: '' @ str_nat (length dupes) @ '' duplicate keys in '' @ side @ '' model.xml'')
        # map (\<lambda>d. ''  '' @ fmt (element_display_key d)) (take 5 dupes)
      else [])"

record model_results =
  header :: "status \<times> string list"
  missing_in_rust :: "key list"
  extra_in_rust :: "key list"
  differences :: "(key \<times> string list) list"
  total_rust :: nat
  total_dotnet :: nat

definition dict_index :: "('k \<times> 'v) list \<Rightarrow> 'k \<Rightarrow> error + 'v" where
  "dict_index d k = (case map_of d k of None \<Rightarrow> Inl KeyError | Some v \<Rightarrow> Inr v)"

text \<open>
  The keys of the two indexes are compared as sets and sorted by their display form. Where
  two different keys have the same display form the source leaves their order to the
  iteration order of a set; the model takes them in the order of the index.
\<close>

definition diff_common ::
  "(key \<times> xml) list \<Rightarrow> (key \<times> xml) list \<Rightarrow> key \<Rightarrow> error + key \<times> string list" where
  "diff_common elems_a elems_b key =
     rbind (dict_index elems_a key) (\<lambda>a.
     rbind (dict_index elems_b key) (\<lambda>b.
     rbind (diff_element a b) (\<lambda>diffs. Inr (key, diffs))))"

definition compare_indexes ::
  "status \<times> string list \<Rightarrow> (key \<times> xml) list \<Rightarrow> (key \<times> xml) list \<Rightarrow> error + model_results" where
  "compare_indexes hdr elems_a elems_b =
     (let keys_a = dict_keys elems_a;
          keys_b = dict_keys elems_b
      in rbind (py_sort lt_ok_opt element_display_key
                  (filter (\<lambda>k. k \<notin> set keys_a) keys_b)) (\<lambda>missing.
         rbind (py_sort lt_ok_opt element_display_key
                  (filter (\<lambda>k. k \<notin> set keys_b) keys_a)) (\<lambda>extra.
         rbind (py_sort lt_ok_opt element_display_key
                  (filter (\<lambda>k. k \<in> set keys_b) keys_a)) (\<lambda>common.
         rbind (traverse (diff_common elems_a elems_b) common) (\<lambda>all_diffs.
           Inr \<lparr> header = hdr,
                 missing_in_rust = missing,
                 extra_in_rust = extra,
                 differences = filter (\<lambda>kd. snd kd \<noteq> []) all_diffs,
                 total_rust = length elems_a,
                 total_dotnet = length elems_b \<rparr>)))))"

text \<open>
  \<^verbatim>\<open>compare_model_xml\<close> on the two parsed documents. It returns what it wrote to the
  diagnostic stream together with its result; \<^verbatim>\<open>model.findall\<close> on a document without
  a \<^verbatim>\<open>Model\<close> child raises \<^verbatim>\<open>AttributeError\<close> before anything is written.
\<close>

definition compare_model_xml :: "xml \<Rightarrow> xml \<Rightarrow> string list \<times> (error + model_results)" where
  "compare_model_xml root_a root_b =
     (let hdr = compare_header (find_first root_a ''Header'') (find_first root_b ''Header'')
      in case find_first root_a ''Model'' of
           None \<Rightarrow> ([], Inl AttributeError)
         | Some model_a \<Rightarrow>
            (case find_first root_b ''Model'' of
               None \<Rightarrow> ([], Inl AttributeError)
             | Some model_b \<Rightarrow>
                (let ia = index_elements model_a;
                     ib = index_elements model_b
                 in (duplicate_warning ''rust'' (snd ia) @ duplicate_warning ''dotnet'' (snd ib),
                     compare_indexes hdr (fst ia) (fst ib)))))"

section \<open>The run\<close>

type_synonym file_results = "(string \<times> status option) list"

definition record_status :: "file_results \<Rightarrow> string \<Rightarrow> status option \<Rightarrow> file_results" where
  "record_status file_results fname status =
     (case status of None \<Rightarrow> file_results | Some s \<Rightarrow> dict_set file_results fname (Some s))"

fun fold_result :: "('s \<Rightarrow> 'a \<Rightarrow> error + 's) \<Rightarrow> 's \<Rightarrow> 'a list \<Rightarrow> error + 's" where
  "fold_result f s [] = Inr s"
| "fold_result f s (x # xs) = rbind (f s x) (\<lambda>s'. fold_result f s' xs)"

definition known_files :: "string list" where
  "known_files = [''Origin.xml'', ''DacMetadata.xml'', ''[Content_Types].xml'',
                  ''predeploy.sql'', ''postdeploy.sql'', ''model.xml'']"

definition list_files :: "directory \<Rightarrow> string list" where
  "list_files d = remdups (dict_keys d)"

definition unexpected_files :: "directory \<Rightarrow> directory \<Rightarrow> file_results \<Rightarrow> file_results" where
  "unexpected_files dir_a dir_b file_results =
     (let files_a = list_files dir_a;
          files_b = list_files dir_b;
          unknown_only_rust =
            sort (filter (\<lambda>f. f \<notin> set files_b \<and> f \<notin> set known_files) files_a);
          unknown_only_dotnet =
            sort (filter (\<lambda>f. f \<notin> set files_a \<and> f \<notin> set known_files) files_b);
          unknown_both =
            sort (filter (\<lambda>f. f \<in> set files_b \<and> f \<notin> set known_files) files_a);
          r1 = (if unknown_only_rust \<noteq> [] then
                  dict_set file_results ''(unexpected files)'' (Some Different)
                else file_results);
          r2 = (if unknown_only_dotnet \<noteq> [] then
                  dict_set r1
                    (if ''(unexpected files)'' \<notin> set (dict_keys r1) then ''(unexpected files)''
                     else ''(unexpected files in dotnet)'')
                    (Some Different)
                else r1)
      in foldl (\<lambda>r fname.
                  let status = compare_text_files (map_of dir_a fname) (map_of dir_b fname)
                  in if status \<noteq> None \<and> status \<noteq> Some Ok then dict_set r fname status else r)
           r2 unknown_both)"

definition has_diffs :: "file_results \<Rightarrow> model_results option \<Rightarrow> bool" where
  "has_diffs file_results model_results =
     (let h = foldl (\<lambda>h (label, status).
                       if label = ''Origin.xml'' then h
                       else if status \<noteq> Some Ok \<and> status \<noteq> None then True
                       else h)
                False file_results
      in case model_results of
           None \<Rightarrow> h
         | Some m \<Rightarrow>
            (let h1 = (if fst (header m) \<noteq> Ok then True else h)
             in if missing_in_rust m \<noteq> [] \<or> extra_in_rust m \<noteq> [] \<or> differences m \<noteq> []
                then True else h1))"

definition exit_code :: "file_results \<Rightarrow> model_results option \<Rightarrow> nat" where
  "exit_code file_results model_results = (if has_diffs file_results model_results then 1 else 0)"

record run =
  stderr :: "string list"
  outcome :: "error + file_results \<times> model_results option \<times> nat"

definition finish :: "string list \<Rightarrow> file_results \<Rightarrow> model_results option \<Rightarrow> run" where
  "finish err file_results model_results =
     \<lparr> stderr = err,
       outcome = Inr (file_results, model_results, exit_code file_results model_results) \<rparr>"

definition abort :: "string list \<Rightarrow> error \<Rightarrow> run" where
  "abort err e = \<lparr> stderr = err, outcome = Inl e \<rparr>"

text \<open>The steps of \<^verbatim>\<open>main\<close>, in the order of the source: the simple XML files, the
  text files, the files outside the known set, and \<^verbatim>\<open>model.xml\<close>.\<close>

definition simple_xml_results ::
  "directory \<Rightarrow> directory \<Rightarrow> file_results \<Rightarrow> error + file_results" where
  "simple_xml_results dir_a dir_b file_results =
     fold_result
       (\<lambda>r fname.
          rbind (compare_simple_xml (map_of dir_a fname) (map_of dir_b fname))
            (\<lambda>status. Inr (record_status r fname status)))
       file_results [''DacMetadata.xml'', ''[Content_Types].xml'']"

definition text_results :: "directory \<Rightarrow> directory \<Rightarrow> file_results \<Rightarrow> file_results" where
  "text_results dir_a dir_b file_results =
     foldl (\<lambda>r fname.
              record_status r fname
                (compare_text_files (map_of dir_a fname) (map_of dir_b fname)))
       file_results [''predeploy.sql'', ''postdeploy.sql'']"

definition model_step :: "directory \<Rightarrow> directory \<Rightarrow> file_results \<Rightarrow> run" where
  "model_step dir_a dir_b file_results =
     (case (map_of dir_a ''model.xml'', map_of dir_b ''model.xml'') of
        (Some model_a, Some model_b) \<Rightarrow>
          (case rbind (parse model_a) (\<lambda>a. rbind (parse model_b) (\<lambda>b. Inr (a, b))) of
             Inl e \<Rightarrow> abort [] e
           | Inr (root_a, root_b) \<Rightarrow>
              (case compare_model_xml root_a root_b of
                 (err, Inl e) \<Rightarrow> abort err e
               | (err, Inr m) \<Rightarrow> finish err file_results (Some m)))
      | (None, _) \<Rightarrow>
          finish [] (dict_set file_results ''model.xml'' (Some Missing_in_rust)) None
      | (Some model_a, None) \<Rightarrow>
          finish [] (dict_set file_results ''model.xml'' (Some Missing_in_dotnet)) None)"

definition main :: "directory \<Rightarrow> directory \<Rightarrow> run" where
  "main dir_a dir_b =
     (case simple_xml_results dir_a dir_b (dict_set [] ''Origin.xml'' (Some Ok)) of
        Inl e \<Rightarrow> abort [] e
      | Inr r1 \<Rightarrow>
          model_step dir_a dir_b
            (unexpected_files dir_a dir_b (text_results dir_a dir_b r1)))"

text \<open>The exit status of the process: an uncaught exception ends Python with status 1.\<close>

definition exit_status :: "run \<Rightarrow> nat" where
  "exit_status r = (case outcome r of Inl e \<Rightarrow> 1 | Inr (_, _, c) \<Rightarrow> c)"





definition missing_status :: "directory \<Rightarrow> directory \<Rightarrow> string \<Rightarrow> status" where
  "missing_status dir_a dir_b fname =
     (if map_of dir_a fname = None then Missing_in_rust else Missing_in_dotnet)"


definition dedup_model :: "xml \<Rightarrow> xml" where
  "dedup_model m = Elem (tag m) (attrib m) (etext m) (map snd (fst (index_elements m)))"

definition dedup_root :: "xml \<Rightarrow> xml" where
  "dedup_root r =
     Elem (tag r) (attrib r) (etext r)
       (map (\<lambda>c. if tag c = NS_BRACKET @ ''Model'' then dedup_model c else c) (children r))"

definition named :: "xml \<Rightarrow> string \<Rightarrow> bool" where
  "named e t = (\<forall>c\<in>set (findall e t). xml_get c ''Name'' \<noteq> None)"







section \<open>Sample inputs\<close>

text \<open>Small documents in the package's namespace, used to run the definitions.\<close>

definition el :: "string \<Rightarrow> (string \<times> string) list \<Rightarrow> xml list \<Rightarrow> xml" where
  "el t a cs = Elem (NS_BRACKET @ t) a None cs"

definition ref_rel :: "string \<Rightarrow> string \<Rightarrow> xml" where
  "ref_rel r n =
     el ''Relationship'' [(''Name'', r)]
       [el ''Entry'' [] [el ''References'' [(''Name'', n)] []]]"

definition sample_default_constraint :: xml where
  "sample_default_constraint =
     el ''Element'' [(''Type'', ''SqlDefaultConstraint'')]
       [ref_rel ''DefiningTable'' ''[dbo].[T]'', ref_rel ''ForColumn'' ''[dbo].[T].[c]'']"

definition xprop :: "string \<Rightarrow> string \<Rightarrow> xml" where
  "xprop n v = el ''Property'' [(''Name'', n), (''Value'', v)] []"

definition xann :: "string \<Rightarrow> xml list \<Rightarrow> xml" where
  "xann t ps = el ''AttachedAnnotation'' [(''Type'', t)] ps"



definition valueless_prop :: "string \<Rightarrow> xml" where
  "valueless_prop n = el ''Property'' [(''Name'', n)] []"

definition table_with_props :: "xml list \<Rightarrow> xml" where
  "table_with_props ps =
     el ''Element'' [(''Type'', ''SqlTable''), (''Name'', ''[dbo].[Foo]'')] ps"

definition table_with_anns :: "xml list \<Rightarrow> xml" where
  "table_with_anns anns =
     el ''Element'' [(''Type'', ''SqlTable''), (''Name'', ''[dbo].[Foo]'')] anns"

definition inline_constraint_ann :: "string \<Rightarrow> xml" where
  "inline_constraint_ann d =
     xann ''SqlInlineConstraintAnnotation'' [xprop ''Disambiguator'' d]"

definition xml_file :: "xml \<Rightarrow> pkg_file" where
  "xml_file t = \<lparr> flines = [], fxml = Some t \<rparr>"

definition nested_ab :: xml where
  "nested_ab =
     Elem ''Root'' [] None
       [Elem ''Group'' [] None [Elem ''A'' [] None []],
        Elem ''Group'' [] None [Elem ''B'' [] None []]]"

definition nested_ba :: xml where
  "nested_ba =
     Elem ''Root'' [] None
       [Elem ''Group'' [] None [Elem ''B'' [] None []],
        Elem ''Group'' [] None [Elem ''A'' [] None []]]"

definition column_with_ann :: "xml list \<Rightarrow> xml" where
  "column_with_ann ps = el ''Element'' [(''Type'', ''SqlSimpleColumn'')] [xann ''T'' ps]"

definition table_with_inline :: "xml \<Rightarrow> xml" where
  "table_with_inline inline =
     el ''Element'' [(''Type'', ''SqlTable''), (''Name'', ''[dbo].[Foo]'')]
       [el ''Relationship'' [(''Name'', ''Columns'')] [el ''Entry'' [] [inline]]]"

definition entries_reordered :: "xml \<Rightarrow> xml \<Rightarrow> bool" where
  "entries_reordered r r' =
     (attrib r = attrib r' \<and> mset (findall r ''Entry'') = mset (findall r' ''Entry''))"

definition parts_reordered :: "xml \<Rightarrow> xml \<Rightarrow> bool" where
  "parts_reordered a b =
     (attrib a = attrib b
      \<and> mset (findall a ''Property'') = mset (findall b ''Property'')
      \<and> mset (findall a ''AttachedAnnotation'') = mset (findall b ''AttachedAnnotation'')
      \<and> (\<exists>rs. mset rs = mset (findall b ''Relationship'')
               \<and> list_all2 entries_reordered (findall a ''Relationship'') rs))"

definition rel_entry_parts :: "xml \<Rightarrow> xml \<Rightarrow> string list" where
  "rel_entry_parts rel entry =
     (case find_first entry ''References'' of
        Some ref \<Rightarrow> [''R:'' @ fmt (xml_get rel ''Name'') @ ''='' @ ref_key ref]
      | None \<Rightarrow>
         (case find_first entry ''Element'' of
            Some inner \<Rightarrow>
              [''R:'' @ fmt (xml_get rel ''Name'') @ ''=(''
                 @ inline_element_fingerprint inner @ '')'']
          | None \<Rightarrow> []))"


definition model_of :: "xml list \<Rightarrow> xml" where
  "model_of es = el ''DataSchemaModel'' [] [el ''Model'' [] es]"



section \<open>Identity resolution: results\<close>

lemma first_child_filter:
  "first_child P cs = (case filter P cs of [] \<Rightarrow> None | c # _ \<Rightarrow> Some c)"
  by (induction cs) auto

lemma find_first_first_child:
  "find_first e t = first_child (\<lambda>c. tag c = NS_BRACKET @ t) (children e)"
  by (simp add: find_first_def findall_def first_child_filter)

lemma find_relationship_first_child:
  "find_relationship e r =
     first_child (\<lambda>c. tag c = NS_BRACKET @ ''Relationship'' \<and> map_of (attrib c) ''Name'' = Some r)
       (children e)"
  by (simp add: find_relationship_def findall_def first_child_filter xml_get_def conj_commute)

lemma resolves_to_iff:
  "resolves_to e r x \<longleftrightarrow> get_ref_name e r = Some x \<and> x \<noteq> []"
  unfolding resolves_to_def get_ref_name_def find_relationship_first_child
    find_first_first_child xml_get_def
  by (auto split: option.splits)

lemma resolves_iff: "resolves e r \<longleftrightarrow> truthy (get_ref_name e r)"
  by (auto simp: resolves_def resolves_to_iff truthy_def)

lemma resolves_to_fmt: "resolves_to e r x \<Longrightarrow> fmt (get_ref_name e r) = x"
  by (simp add: resolves_to_iff fmt_def)

text \<open>
  Claim C1. \<^verbatim>\<open>element_key\<close> has no failing branch (it is a total function into keys),
  and it decides in a fixed order: a \<^verbatim>\<open>Name\<close> attribute gives \<open>(type, name)\<close>; otherwise
  DefiningTable and ForColumn, when both resolve, give
  \<open>(type, "DefiningTable=X,ForColumn=Y")\<close>; otherwise DefiningTable and DefiningColumn, when
  both resolve, give the DefiningColumn form; otherwise DefiningTable alone gives
  \<open>(type, "DefiningTable=X")\<close>; otherwise the key is the singleton \<open>(type,)\<close>.
\<close>

theorem element_key_resolution_order:
  "(\<forall>n. xml_get e ''Name'' = Some n \<longrightarrow> element_key e = Key2 (xml_get e ''Type'') n)
   \<and> (\<forall>x y. xml_get e ''Name'' = None \<and> resolves_to e ''DefiningTable'' x
          \<and> resolves_to e ''ForColumn'' y \<longrightarrow>
        element_key e
          = Key2 (xml_get e ''Type'') (''DefiningTable='' @ x @ '',ForColumn='' @ y))
   \<and> (\<forall>x y. xml_get e ''Name'' = None \<and> resolves_to e ''DefiningTable'' x
          \<and> \<not> resolves e ''ForColumn'' \<and> resolves_to e ''DefiningColumn'' y \<longrightarrow>
        element_key e
          = Key2 (xml_get e ''Type'') (''DefiningTable='' @ x @ '',DefiningColumn='' @ y))
   \<and> (\<forall>x. xml_get e ''Name'' = None \<and> resolves_to e ''DefiningTable'' x
          \<and> \<not> resolves e ''ForColumn'' \<and> \<not> resolves e ''DefiningColumn'' \<longrightarrow>
        element_key e = Key2 (xml_get e ''Type'') (''DefiningTable='' @ x))
   \<and> (xml_get e ''Name'' = None \<and> \<not> resolves e ''DefiningTable'' \<longrightarrow>
        element_key e = Key1 (xml_get e ''Type''))"
proof -
  have named: "element_key e = Key2 (xml_get e ''Type'') n" if "xml_get e ''Name'' = Some n" for n
    using that by (simp add: element_key_def)
  have unnamed: "element_key e =
      (if resolves e ''DefiningTable'' \<and> resolves e ''ForColumn'' then
         Key2 (xml_get e ''Type'')
           (''DefiningTable='' @ fmt (get_ref_name e ''DefiningTable'') @ '',ForColumn=''
              @ fmt (get_ref_name e ''ForColumn''))
       else if resolves e ''DefiningTable'' \<and> resolves e ''DefiningColumn'' then
         Key2 (xml_get e ''Type'')
           (''DefiningTable='' @ fmt (get_ref_name e ''DefiningTable'') @ '',DefiningColumn=''
              @ fmt (get_ref_name e ''DefiningColumn''))
       else if resolves e ''DefiningTable'' then
         Key2 (xml_get e ''Type'') (''DefiningTable='' @ fmt (get_ref_name e ''DefiningTable''))
       else Key1 (xml_get e ''Type''))"
    if "xml_get e ''Name'' = None"
    using that by (simp add: element_key_def resolves_iff Let_def)
  have r: "resolves e r" if "resolves_to e r x" for r x
    using that by (auto simp: resolves_def)
  show ?thesis
    using named unnamed by (auto dest: r simp: resolves_to_fmt)
qed

theorem element_key_resolution_order_witness:
  "xml_get sample_default_constraint ''Name'' = None
   \<and> resolves_to sample_default_constraint ''DefiningTable'' ''[dbo].[T]''
   \<and> resolves_to sample_default_constraint ''ForColumn'' ''[dbo].[T].[c]''
   \<and> element_key sample_default_constraint
       = Key2 (Some ''SqlDefaultConstraint'') ''DefiningTable=[dbo].[T],ForColumn=[dbo].[T].[c]''"
proof -
  have n: "xml_get sample_default_constraint ''Name'' = None"
    and t: "xml_get sample_default_constraint ''Type'' = Some ''SqlDefaultConstraint''"
    by (simp_all add: sample_default_constraint_def el_def xml_get_def)
  have dt: "resolves_to sample_default_constraint ''DefiningTable'' ''[dbo].[T]''"
    by (simp add: resolves_to_iff sample_default_constraint_def el_def ref_rel_def
        get_ref_name_def find_relationship_def findall_def find_first_def xml_get_def)
  have fc: "resolves_to sample_default_constraint ''ForColumn'' ''[dbo].[T].[c]''"
    by (simp add: resolves_to_iff sample_default_constraint_def el_def ref_rel_def
        get_ref_name_def find_relationship_def findall_def find_first_def xml_get_def)
  show ?thesis
    using element_key_resolution_order [of sample_default_constraint] n t dt fc by simp
qed

section \<open>Dictionaries: results\<close>

lemma map_of_dict_set: "map_of (dict_set d k v) = (map_of d)(k \<mapsto> v)"
  by (induction d) (auto simp: fun_eq_iff)

lemma keys_dom: "set (dict_keys d) = dom (map_of d)"
  by (simp add: dict_keys_def dom_map_of_conv_image_fst)

lemma keys_dict_set: "set (dict_keys (dict_set d k v)) = insert k (set (dict_keys d))"
  by (simp add: keys_dom map_of_dict_set)

lemma dict_keys_Nil [simp]: "dict_keys [] = []"
  by (simp add: dict_keys_def)

lemma map_of_foldl_dict_set:
  "map_of (foldl (\<lambda>d x. dict_set d (kf x) (vf x)) d xs)
     = map_of (rev (map (\<lambda>x. (kf x, vf x)) xs) @ d)"
proof (induction xs arbitrary: d)
  case Nil
  show ?case by simp
next
  case (Cons x xs)
  show ?case
    by (simp add: Cons.IH map_of_dict_set fun_eq_iff map_add_def split: option.splits)
qed

lemma keys_foldl_dict_set:
  "set (dict_keys (foldl (\<lambda>d x. dict_set d (kf x) (vf x)) d xs))
     = kf ` set xs \<union> set (dict_keys d)"
  by (induction xs arbitrary: d) (auto simp: keys_dict_set)


lemma map_of_get_properties:
  "map_of (get_properties e)
     = map_of (rev (map (\<lambda>p. (xml_get p ''Name'', prop_value p)) (findall e ''Property'')))"
  by (simp add: get_properties_def map_of_foldl_dict_set)


lemma prop_value_None_iff:
  "prop_value p = None \<longleftrightarrow> xml_get p ''Value'' = None \<and> find_first p ''Value'' = None"
  by (simp add: prop_value_def split: option.splits)

section \<open>The phases of diff_element\<close>

lemma rbind_Inr_iff: "rbind m f = Inr y \<longleftrightarrow> (\<exists>x. m = Inr x \<and> f x = Inr y)"
  by (cases m) (simp_all add: rbind_def)

lemma py_sort_Inr: "py_sort ok f xs = Inr ys \<Longrightarrow> ys = sort_key f xs"
  by (simp add: py_sort_def split: if_splits)

lemma diff_element_Inr:
  assumes "diff_element a b = Inr ds"
  obtains A B where "get_annotations a = Inr A" "get_annotations b = Inr B"
    "ds = concat (map (prop_diff (get_properties a) (get_properties b))
                   (sort (remdups (dict_keys (get_properties a) @ dict_keys (get_properties b)))))
          @ concat (map (rel_diff (get_relationships a) (get_relationships b))
                   (sort (remdups (dict_keys (get_relationships a)
                                   @ dict_keys (get_relationships b)))))
          @ ann_diff A B"
  using assms unfolding diff_element_def Let_def rbind_Inr_iff
  by (auto dest!: py_sort_Inr)


section \<open>Relationships\<close>




section \<open>Properties\<close>

lemma map_of_get_properties_last:
  assumes "findall a ''Property'' = ps @ [p] @ qs"
    and "\<forall>q\<in>set qs. xml_get q ''Name'' \<noteq> xml_get p ''Name''"
  shows "map_of (get_properties a) (xml_get p ''Name'') = Some (prop_value p)"
proof -
  have "map_of (rev (map (\<lambda>p. (xml_get p ''Name'', prop_value p)) qs)) (xml_get p ''Name'') = None"
    using assms(2) by (auto simp: map_of_eq_None_iff image_iff)
  then show ?thesis
    using assms(1) by (simp add: map_of_get_properties map_add_def)
qed

lemma map_of_get_properties_absent:
  assumes "\<forall>q\<in>set (findall b ''Property''). xml_get q ''Name'' \<noteq> name"
  shows "map_of (get_properties b) name = None"
  using assms by (auto simp: map_of_get_properties map_of_eq_None_iff image_iff)

lemma prop_diff_same_value:
  "dict_get pa name = dict_get pb name \<Longrightarrow> prop_diff pa pb name = []"
  by (simp add: prop_diff_def)

text \<open>
  Claim C10. A \<^verbatim>\<open>Property\<close> node with neither a \<^verbatim>\<open>Value\<close> attribute nor a
  \<^verbatim>\<open>Value\<close> child is recorded with the value \<^verbatim>\<open>None\<close>. When that node is the one
  recorded for its name on one side, and the other side has no property of that name, the
  step of \<^verbatim>\<open>diff_element\<close> for that name emits nothing, whichever side the
  valueless property is on.
\<close>

theorem valueless_property_same_as_absent:
  assumes "findall a ''Property'' = ps @ [p] @ qs"
    and "\<forall>q\<in>set qs. xml_get q ''Name'' \<noteq> xml_get p ''Name''"
    and "xml_get p ''Value'' = None" and "find_first p ''Value'' = None"
    and "\<forall>q\<in>set (findall b ''Property''). xml_get q ''Name'' \<noteq> xml_get p ''Name''"
  shows "map_of (get_properties a) (xml_get p ''Name'') = Some None
       \<and> map_of (get_properties b) (xml_get p ''Name'') = None
       \<and> prop_diff (get_properties a) (get_properties b) (xml_get p ''Name'') = []
       \<and> prop_diff (get_properties b) (get_properties a) (xml_get p ''Name'') = []"
proof -
  have v: "prop_value p = None"
    using assms(3,4) by (simp add: prop_value_None_iff)
  have a: "map_of (get_properties a) (xml_get p ''Name'') = Some None"
    using map_of_get_properties_last [OF assms(1,2)] v by simp
  have b: "map_of (get_properties b) (xml_get p ''Name'') = None"
    using map_of_get_properties_absent [OF assms(5)] .
  have "dict_get (get_properties a) (xml_get p ''Name'')
          = dict_get (get_properties b) (xml_get p ''Name'')"
    using a b by (simp add: dict_get_def)
  then show ?thesis
    using a b prop_diff_same_value [of "get_properties a" _ "get_properties b"]
      prop_diff_same_value [of "get_properties b" _ "get_properties a"]
    by simp
qed

theorem valueless_property_same_as_absent_witness:
  "prop_diff (get_properties (table_with_props [xprop ''A'' ''1'', valueless_prop ''B'']))
     (get_properties (table_with_props [xprop ''A'' ''1''])) (Some ''B'') = []
   \<and> prop_diff (get_properties (table_with_props [xprop ''A'' ''1'']))
     (get_properties (table_with_props [xprop ''A'' ''1'', valueless_prop ''B''])) (Some ''B'') = []
   \<and> diff_element (table_with_props [xprop ''A'' ''1'', valueless_prop ''B''])
        (table_with_props [xprop ''A'' ''1'']) = Inr []"
proof -
  have f: "findall (table_with_props [xprop ''A'' ''1'', valueless_prop ''B'']) ''Property''
             = [xprop ''A'' ''1''] @ [valueless_prop ''B''] @ []"
    by (simp add: table_with_props_def el_def findall_def xprop_def valueless_prop_def)
  have n: "xml_get (valueless_prop ''B'') ''Name'' = Some ''B''"
    and v: "xml_get (valueless_prop ''B'') ''Value'' = None"
    and c: "find_first (valueless_prop ''B'') ''Value'' = None"
    by (simp_all add: valueless_prop_def el_def xml_get_def find_first_def findall_def)
  have q: "\<forall>q\<in>set []. xml_get q ''Name'' \<noteq> xml_get (valueless_prop ''B'') ''Name''"
    by simp
  have b: "\<forall>q\<in>set (findall (table_with_props [xprop ''A'' ''1'']) ''Property'').
             xml_get q ''Name'' \<noteq> xml_get (valueless_prop ''B'') ''Name''"
    by (simp add: table_with_props_def el_def findall_def xprop_def valueless_prop_def
        xml_get_def)
  have d: "diff_element (table_with_props [xprop ''A'' ''1'', valueless_prop ''B''])
        (table_with_props [xprop ''A'' ''1'']) = Inr []"
    by code_simp
  show ?thesis
    using valueless_property_same_as_absent [OF f q v c b] n d by simp
qed

section \<open>Annotations\<close>

lemma concat_map_if: "concat (map (\<lambda>t. if P t then [f t] else []) xs) = map f (filter P xs)"
  by (induction xs) auto

lemma of_type_absent: "t \<notin> fst ` set A \<Longrightarrow> of_type t A = []"
  by (auto simp: of_type_def filter_empty_conv)

lemma count_info_empty_iff: "count_info X Y = [] \<longleftrightarrow> length X = length Y"
  by (simp add: count_info_def)

lemma ann_diff_content:
  assumes "set (map str_ann A) \<noteq> set (map str_ann B)"
  shows "ann_diff A B =
     map (\<lambda>t. ''    Annotation '' @ quoted t @ '': differs''
                @ count_info (of_type t A) (of_type t B))
       (filter (\<lambda>t. of_type t A \<noteq> of_type t B) (sort (remdups (map fst (A @ B)))))"
proof -
  have ne: "A \<noteq> B" using assms by auto
  have g: "set (map str_ann A) - set (map str_ann B) \<noteq> {}
           \<or> set (map str_ann B) - set (map str_ann A) \<noteq> {}"
    using assms by blast
  have "ann_diff A B = concat (map (ann_type_diff A B) (sort (remdups (map fst (A @ B)))))"
    using ne g by (simp add: ann_diff_def Let_def del: set_map)
  also have "ann_type_diff A B =
      (\<lambda>t. if of_type t A \<noteq> of_type t B
            then [''    Annotation '' @ quoted t @ '': differs''
                    @ count_info (of_type t A) (of_type t B)]
            else [])"
    by (simp add: ann_type_diff_def Let_def fun_eq_iff)
  finally show ?thesis by (simp only: concat_map_if)
qed

lemma ann_diff_same_content:
  assumes "set (map str_ann A) = set (map str_ann B)"
  shows "ann_diff A B = []"
  using assms by (simp add: ann_diff_def Let_def del: set_map)

lemma differing_types_listed:
  "set (filter (\<lambda>t. of_type t A \<noteq> of_type t B) (sort (remdups (map fst (A @ B)))))
     = {t. of_type t A \<noteq> of_type t B}"
proof -
  have "t \<in> fst ` set A \<union> fst ` set B" if "of_type t A \<noteq> of_type t B" for t
    using that of_type_absent [of t A] of_type_absent [of t B] by fastforce
  then show ?thesis by auto
qed

text \<open>
  Claim C5, as the code has it. When the two sorted annotation lists differ in content
  (some annotation's string form occurs on one side only), the annotation phase reports
  exactly the annotation types whose per-type sublists differ, once each and in ascending
  order, and the line carries a count note exactly when the two sublists differ in
  length. When every string form occurs on both sides, nothing is reported, also when the
  lists differ in how often an annotation occurs. The lines close the result of
  \<^verbatim>\<open>diff_element\<close>.
\<close>

theorem annotation_phase_reports_differing_types:
  assumes "get_annotations a = Inr A" and "get_annotations b = Inr B"
  shows "(set (map str_ann A) \<noteq> set (map str_ann B) \<longrightarrow>
            (\<exists>ts. ann_diff A B =
                    map (\<lambda>t. ''    Annotation '' @ quoted t @ '': differs''
                               @ count_info (of_type t A) (of_type t B)) ts
                 \<and> sorted ts \<and> distinct ts \<and> set ts = {t. of_type t A \<noteq> of_type t B}))
       \<and> (\<forall>t. count_info (of_type t A) (of_type t B) = []
                \<longleftrightarrow> length (of_type t A) = length (of_type t B))
       \<and> (set (map str_ann A) = set (map str_ann B) \<longrightarrow> ann_diff A B = [])
       \<and> (\<forall>ds. diff_element a b = Inr ds \<longrightarrow> (\<exists>pre. ds = pre @ ann_diff A B))"
proof -
  let ?ts = "filter (\<lambda>t. of_type t A \<noteq> of_type t B) (sort (remdups (map fst (A @ B))))"
  have 1: "\<exists>ts. ann_diff A B =
                    map (\<lambda>t. ''    Annotation '' @ quoted t @ '': differs''
                               @ count_info (of_type t A) (of_type t B)) ts
                 \<and> sorted ts \<and> distinct ts \<and> set ts = {t. of_type t A \<noteq> of_type t B}"
    if "set (map str_ann A) \<noteq> set (map str_ann B)"
  proof (intro exI [of _ ?ts] conjI)
    show "ann_diff A B =
        map (\<lambda>t. ''    Annotation '' @ quoted t @ '': differs''
                   @ count_info (of_type t A) (of_type t B)) ?ts"
      using ann_diff_content [OF that] .
    show "sorted ?ts" by (simp add: sorted_wrt_filter)
    show "distinct ?ts" by simp
    show "set ?ts = {t. of_type t A \<noteq> of_type t B}" by (rule differing_types_listed)
  qed
  have 4: "\<exists>pre. ds = pre @ ann_diff A B" if "diff_element a b = Inr ds" for ds
    using that assms by (elim diff_element_Inr) auto
  show ?thesis
    using 1 4 ann_diff_same_content [of A B] by (simp add: count_info_empty_iff del: set_map)
qed

theorem annotation_phase_reports_differing_types_witness:
  "get_annotations (table_with_anns [xann ''T'' [xprop ''X'' ''1''], xann ''T'' [xprop ''X'' ''2'']])
     = Inr [(''T'', [(Some ''X'', Some ''1'')]), (''T'', [(Some ''X'', Some ''2'')])]
   \<and> get_annotations (table_with_anns [xann ''T'' [xprop ''X'' ''1'']])
     = Inr [(''T'', [(Some ''X'', Some ''1'')])]
   \<and> (\<exists>ts. ann_diff [(''T'', [(Some ''X'', Some ''1'')]), (''T'', [(Some ''X'', Some ''2'')])]
              [(''T'', [(Some ''X'', Some ''1'')])]
            = map (\<lambda>t. ''    Annotation '' @ quoted t @ '': differs''
                 @ count_info
                     (of_type t [(''T'', [(Some ''X'', Some ''1'')]), (''T'', [(Some ''X'', Some ''2'')])])
                     (of_type t [(''T'', [(Some ''X'', Some ''1'')])])) ts
          \<and> set ts = {t. of_type t [(''T'', [(Some ''X'', Some ''1'')]), (''T'', [(Some ''X'', Some ''2'')])]
                           \<noteq> of_type t [(''T'', [(Some ''X'', Some ''1'')])]})
   \<and> diff_element (table_with_anns [xann ''T'' [xprop ''X'' ''1''], xann ''T'' [xprop ''X'' ''2'']])
        (table_with_anns [xann ''T'' [xprop ''X'' ''1'']])
     = Inr [''    Annotation '' @ quoted ''T'' @ '': differs (rust=2, dotnet=1)'']"
proof -
  have a: "get_annotations (table_with_anns [xann ''T'' [xprop ''X'' ''1''], xann ''T'' [xprop ''X'' ''2'']])
     = Inr [(''T'', [(Some ''X'', Some ''1'')]), (''T'', [(Some ''X'', Some ''2'')])]"
    by code_simp
  have b: "get_annotations (table_with_anns [xann ''T'' [xprop ''X'' ''1'']])
     = Inr [(''T'', [(Some ''X'', Some ''1'')])]"
    by code_simp
  have s: "set (map str_ann [(''T'', [(Some ''X'', Some ''1'')]), (''T'', [(Some ''X'', Some ''2'')])])
            \<noteq> set (map str_ann [(''T'', [(Some ''X'', Some ''1'')])])"
    by code_simp
  have d: "diff_element (table_with_anns [xann ''T'' [xprop ''X'' ''1''], xann ''T'' [xprop ''X'' ''2'']])
        (table_with_anns [xann ''T'' [xprop ''X'' ''1'']])
     = Inr [''    Annotation '' @ quoted ''T'' @ '': differs (rust=2, dotnet=1)'']"
    by code_simp
  show ?thesis
    using annotation_phase_reports_differing_types [OF a b] s a b d by blast
qed

text \<open>
  The claim as the specification states it fails where the lists differ only in how often
  an annotation occurs: two inline-constraint annotations against one. The sorted lists
  are unequal, the sublists of the one type differ (in length too), and nothing is
  reported.
\<close>

theorem annotation_count_only_counterexample:
  "get_annotations (table_with_anns [inline_constraint_ann ''3'', inline_constraint_ann ''4''])
     = Inr [(''SqlInlineConstraintAnnotation'', []), (''SqlInlineConstraintAnnotation'', [])]
   \<and> get_annotations (table_with_anns [inline_constraint_ann ''3''])
     = Inr [(''SqlInlineConstraintAnnotation'', [])]
   \<and> of_type ''SqlInlineConstraintAnnotation''
        [(''SqlInlineConstraintAnnotation'', []), (''SqlInlineConstraintAnnotation'', [])]
      \<noteq> of_type ''SqlInlineConstraintAnnotation'' [(''SqlInlineConstraintAnnotation'', [])]
   \<and> ann_diff [(''SqlInlineConstraintAnnotation'', []), (''SqlInlineConstraintAnnotation'', [])]
        [(''SqlInlineConstraintAnnotation'', [])] = []
   \<and> diff_element (table_with_anns [inline_constraint_ann ''3'', inline_constraint_ann ''4''])
        (table_with_anns [inline_constraint_ann ''3'']) = Inr []"
  by code_simp

section \<open>The disambiguator\<close>

lemma dict_pop_dict_set:
  "dict_pop (dict_set d k' v) k
     = (if k' = k then dict_pop d k else dict_set (dict_pop d k) k' v)"
  by (induction d) (auto simp: dict_pop_def)

lemma dict_pop_foldl:
  "dict_pop (foldl (\<lambda>d x. dict_set d (kf x) (vf x)) d xs) k
     = foldl (\<lambda>d x. dict_set d (kf x) (vf x)) (dict_pop d k) (filter (\<lambda>x. kf x \<noteq> k) xs)"
  by (induction xs arbitrary: d) (simp_all add: dict_pop_dict_set)

lemma pop_disambiguator:
  "dict_pop (get_properties x) (Some ''Disambiguator'')
     = foldl (\<lambda>d p. dict_set d (xml_get p ''Name'') (prop_value p)) []
         (filter (\<lambda>c. tag c = NS_BRACKET @ ''Property'')
            (filter (\<lambda>p. \<not> is_disambiguator p) (children x)))"
proof -
  have "filter (\<lambda>p. xml_get p ''Name'' \<noteq> Some ''Disambiguator'') (findall x ''Property'')
          = filter (\<lambda>c. tag c = NS_BRACKET @ ''Property'')
              (filter (\<lambda>p. \<not> is_disambiguator p) (children x))"
    by (auto simp: findall_def is_disambiguator_def intro: filter_cong)
  moreover have "dict_pop ([] :: props) (Some ''Disambiguator'') = []"
    by (simp add: dict_pop_def)
  ultimately show ?thesis
    unfolding get_properties_def dict_pop_foldl by (simp only:)
qed

lemma same_but_disambiguator_pop:
  assumes "same_but_disambiguator x y"
  shows "dict_pop (get_properties x) (Some ''Disambiguator'')
           = dict_pop (get_properties y) (Some ''Disambiguator'')"
  using assms by (simp add: pop_disambiguator same_but_disambiguator_def)

lemma same_but_disambiguator_ann:
  assumes "same_but_disambiguator x y"
  shows "ann_entry x = ann_entry y" and "ann_part x = ann_part y"
proof -
  have t: "xml_get_default x ''Type'' [] = xml_get_default y ''Type'' []"
    using assms by (simp add: same_but_disambiguator_def xml_get_default_def xml_get_def)
  show "ann_entry x = ann_entry y"
    by (simp add: ann_entry_def t same_but_disambiguator_pop [OF assms])
  show "ann_part x = ann_part y"
    by (simp add: ann_part_def t same_but_disambiguator_pop [OF assms])
qed

lemma list_all2_filter_other:
  assumes "list_all2 (\<lambda>c d. c = d \<or> (tag c = T \<and> tag d = T)) cs ds" and "t \<noteq> T"
  shows "filter (\<lambda>c. tag c = t) cs = filter (\<lambda>c. tag c = t) ds"
  using assms by (induction cs ds rule: list_all2_induct) auto

lemma list_all2_filter_same:
  assumes "list_all2 (\<lambda>c d. c = d \<or> (tag c = T \<and> R c d \<and> tag d = T)) cs ds"
  shows "list_all2 (\<lambda>c d. c = d \<or> R c d)
           (filter (\<lambda>c. tag c = T) cs) (filter (\<lambda>c. tag c = T) ds)"
  using assms by (induction cs ds rule: list_all2_induct) auto

lemma map_eq_list_all2:
  assumes "list_all2 (\<lambda>c d. c = d \<or> R c d) cs ds" and "\<And>c d. R c d \<Longrightarrow> f c = f d"
  shows "map f cs = map f ds"
  using assms by (induction cs ds rule: list_all2_induct) auto

lemma differ_children:
  assumes "differ_in_disambiguators a b"
  shows "list_all2 (\<lambda>c d. c = d \<or> (tag c = NS_BRACKET @ ''AttachedAnnotation''
                                    \<and> same_but_disambiguator c d
                                    \<and> tag d = NS_BRACKET @ ''AttachedAnnotation''))
           (children a) (children b)"
  using assms unfolding differ_in_disambiguators_def
  by (auto elim!: list_all2_mono simp: same_but_disambiguator_def)

lemma differ_findall_other:
  assumes "differ_in_disambiguators a b" and "t \<noteq> ''AttachedAnnotation''"
  shows "findall a t = findall b t"
proof -
  have "list_all2 (\<lambda>c d. c = d \<or> (tag c = NS_BRACKET @ ''AttachedAnnotation''
                                    \<and> tag d = NS_BRACKET @ ''AttachedAnnotation''))
           (children a) (children b)"
    using differ_children [OF assms(1)] by (auto elim!: list_all2_mono)
  from list_all2_filter_other [OF this, of "NS_BRACKET @ t"] assms(2)
  show ?thesis by (simp add: findall_def)
qed

lemma differ_findall_ann:
  assumes "differ_in_disambiguators a b"
  shows "list_all2 (\<lambda>c d. c = d \<or> same_but_disambiguator c d)
           (findall a ''AttachedAnnotation'') (findall b ''AttachedAnnotation'')"
  unfolding findall_def
  using list_all2_filter_same [OF differ_children [OF assms]] .

lemma differ_get:
  assumes "differ_in_disambiguators a b"
  shows "get_properties a = get_properties b"
    and "get_relationships a = get_relationships b"
    and "get_annotations a = get_annotations b"
    and "inline_element_fingerprint a = inline_element_fingerprint b"
proof -
  have at: "xml_get_default a ''Type'' [] = xml_get_default b ''Type'' []"
    using assms by (simp add: differ_in_disambiguators_def xml_get_default_def xml_get_def)
  have p: "findall a ''Property'' = findall b ''Property''"
    and r: "findall a ''Relationship'' = findall b ''Relationship''"
    using differ_findall_other [OF assms] by simp_all
  have e: "map ann_entry (findall a ''AttachedAnnotation'')
             = map ann_entry (findall b ''AttachedAnnotation'')"
    using differ_findall_ann [OF assms] same_but_disambiguator_ann(1)
    by (rule map_eq_list_all2)
  have q: "map ann_part (findall a ''AttachedAnnotation'')
             = map ann_part (findall b ''AttachedAnnotation'')"
    using differ_findall_ann [OF assms] same_but_disambiguator_ann(2)
    by (rule map_eq_list_all2)
  have tr: "traverse f xs = traverse g ys" if "map f xs = map g ys" for f g :: "xml \<Rightarrow> error + annotation" and xs ys
    using that by (induction xs arbitrary: ys) auto
  show "get_properties a = get_properties b" by (simp add: get_properties_def p)
  show "get_relationships a = get_relationships b" by (simp add: get_relationships_def r)
  show "get_annotations a = get_annotations b"
    by (simp add: get_annotations_def tr [OF e])
  show "inline_element_fingerprint a = inline_element_fingerprint b"
    by (simp add: inline_element_fingerprint.simps [of a] inline_element_fingerprint.simps [of b]
        at p r q)
qed

text \<open>
  Claim C7. Two annotations that are identical except for the value or the presence of
  the \<^verbatim>\<open>Disambiguator\<close> property give the same entry in \<^verbatim>\<open>get_annotations\<close> and
  the same part in \<^verbatim>\<open>inline_element_fingerprint\<close>. Hence two elements that differ
  only in this way in their attached annotations have the same annotations and the same
  fingerprint, and each can stand for the other on either side of \<^verbatim>\<open>diff_element\<close>.
\<close>

theorem disambiguator_never_compared:
  "(same_but_disambiguator x y \<longrightarrow> ann_entry x = ann_entry y \<and> ann_part x = ann_part y)
   \<and> (differ_in_disambiguators a b \<longrightarrow>
        get_annotations a = get_annotations b
        \<and> inline_element_fingerprint a = inline_element_fingerprint b
        \<and> (\<forall>c. diff_element a c = diff_element b c \<and> diff_element c a = diff_element c b))"
proof -
  have "diff_element a c = diff_element b c \<and> diff_element c a = diff_element c b"
    if "differ_in_disambiguators a b" for c
    by (simp add: diff_element_def differ_get [OF that])
  then show ?thesis
    using same_but_disambiguator_ann differ_get(3,4) by blast
qed

theorem disambiguator_never_compared_witness:
  "same_but_disambiguator (xann ''T'' [xprop ''Disambiguator'' ''3'', xprop ''X'' ''1''])
     (xann ''T'' [xprop ''X'' ''1''])
   \<and> ann_entry (xann ''T'' [xprop ''Disambiguator'' ''3'', xprop ''X'' ''1''])
       = ann_entry (xann ''T'' [xprop ''X'' ''1''])
   \<and> ann_part (xann ''T'' [xprop ''Disambiguator'' ''3'', xprop ''X'' ''1''])
       = ann_part (xann ''T'' [xprop ''X'' ''1''])
   \<and> differ_in_disambiguators
        (table_with_anns [xprop ''P'' ''v'', inline_constraint_ann ''3''])
        (table_with_anns [xprop ''P'' ''v'', inline_constraint_ann ''7''])
   \<and> inline_element_fingerprint (table_with_anns [xprop ''P'' ''v'', inline_constraint_ann ''3''])
       = inline_element_fingerprint (table_with_anns [xprop ''P'' ''v'', inline_constraint_ann ''7''])
   \<and> diff_element (table_with_anns [xprop ''P'' ''v'', inline_constraint_ann ''3''])
        (table_with_anns [xprop ''P'' ''v'', inline_constraint_ann ''7''])
       = diff_element (table_with_anns [xprop ''P'' ''v'', inline_constraint_ann ''7''])
           (table_with_anns [xprop ''P'' ''v'', inline_constraint_ann ''7''])"
proof -
  have s: "same_but_disambiguator (xann ''T'' [xprop ''Disambiguator'' ''3'', xprop ''X'' ''1''])
     (xann ''T'' [xprop ''X'' ''1''])"
    by (simp add: same_but_disambiguator_def is_disambiguator_def xann_def xprop_def el_def
        xml_get_def)
  have d: "differ_in_disambiguators
        (table_with_anns [xprop ''P'' ''v'', inline_constraint_ann ''3''])
        (table_with_anns [xprop ''P'' ''v'', inline_constraint_ann ''7''])"
    by (simp add: differ_in_disambiguators_def same_but_disambiguator_def is_disambiguator_def
        table_with_anns_def inline_constraint_ann_def xann_def xprop_def el_def xml_get_def)
  show ?thesis
    using disambiguator_never_compared
      [of "xann ''T'' [xprop ''Disambiguator'' ''3'', xprop ''X'' ''1'']"
          "xann ''T'' [xprop ''X'' ''1'']"
          "table_with_anns [xprop ''P'' ''v'', inline_constraint_ann ''3'']"
          "table_with_anns [xprop ''P'' ''v'', inline_constraint_ann ''7'']"] s d
    by blast
qed

section \<open>Simple XML files\<close>

lemma canonical_children: "xml_to_canonical (Elem t a x cs) = xml_to_canonical (Elem t a x ds)"
  by (simp add: xml_to_canonical_def)

lemma sort_key_map_cong:
  fixes f :: "'a \<Rightarrow> 'k::linorder"
  assumes m: "mset xs = mset ys"
    and g: "\<forall>x\<in>set xs. \<forall>y\<in>set xs. f x = f y \<longrightarrow> g x = g y"
  shows "map g (sort_key f xs) = map g (sort_key f ys)"
proof -
  define h where "h x = (f x, g x)" for x
  let ?L1 = "map h (sort_key f xs)" and ?L2 = "map h (sort_key f ys)"
  have s: "set ys = set xs" using m by (metis mset_eq_setD)
  have grp: "map h (filter P zs) = replicate (length (filter P zs)) (h x0)"
    if x0: "x0 \<in> set xs" and sub: "set zs \<subseteq> set xs" and P: "\<And>x. P x \<Longrightarrow> f x = f x0"
    for x0 zs P
    using sub
  proof (induction zs)
    case Nil
    show ?case by simp
  next
    case (Cons z zs)
    from Cons.prems have z: "z \<in> set xs" and zs: "set zs \<subseteq> set xs" by auto
    have hz: "h z = h x0" if "P z"
      using g [rule_format, OF z x0] P [OF that] by (simp add: h_def)
    show ?case using Cons.IH [OF zs] hz by simp
  qed
  have len: "length (filter P xs) = length (filter P ys)" for P
    using m by (metis mset_filter size_mset)
  have stab: "filter (\<lambda>p. v = fst p) (map h (sort_key f zs))
                = map h (filter (\<lambda>x. v = f x) zs)" for v zs
  proof -
    have "filter (\<lambda>p. v = fst p) (map h (sort_key f zs))
            = map h (filter (\<lambda>x. f x = v) (sort_key f zs))"
      by (simp add: filter_map o_def h_def eq_commute)
    also have "filter (\<lambda>x. f x = v) (sort_key f zs) = filter (\<lambda>x. f x = v) zs"
      by (rule sort_key_stable)
    finally show ?thesis by (simp add: eq_commute)
  qed
  have "sort_key fst ?L2 = ?L1"
  proof (rule properties_for_sort_key)
    show "mset ?L1 = mset ?L2" using m by simp
    show "sorted (map fst ?L1)" by (simp add: o_def h_def)
    show "filter (\<lambda>x. fst k = fst x) ?L1 = filter (\<lambda>x. fst k = fst x) ?L2"
      if "k \<in> set ?L1" for k
    proof -
      from that obtain x0 where x0: "x0 \<in> set xs" "k = h x0" by auto
      have fk: "fst k = f x0" using x0 by (simp add: h_def)
      have "filter (\<lambda>x. fst k = fst x) ?L1 = map h (filter (\<lambda>x. f x0 = f x) xs)"
        by (simp only: fk stab)
      also have "\<dots> = replicate (length (filter (\<lambda>x. f x0 = f x) xs)) (h x0)"
        using grp [OF x0(1), of xs "\<lambda>x. f x0 = f x"] by simp
      also have "\<dots> = replicate (length (filter (\<lambda>x. f x0 = f x) ys)) (h x0)"
        using len [of "\<lambda>x. f x0 = f x"] by simp
      also have "\<dots> = map h (filter (\<lambda>x. f x0 = f x) ys)"
        using grp [OF x0(1), of ys "\<lambda>x. f x0 = f x"] s by simp
      also have "\<dots> = filter (\<lambda>x. fst k = fst x) ?L2"
        by (simp only: fk stab)
      finally show ?thesis .
    qed
  qed
  moreover have "sort_key fst ?L2 = ?L2"
    by (rule sort_key_id_if_sorted) (simp add: o_def h_def)
  ultimately have "?L1 = ?L2" by simp
  then have "map snd ?L1 = map snd ?L2" by simp
  then show ?thesis by (simp add: o_def h_def)
qed

text \<open>
  What does hold of the flattening: the order of the children of a node does not matter
  when any two children with the same signature flatten to the same list.
\<close>

lemma flatten_sibling_order:
  assumes "mset cs = mset ds"
    and "\<forall>c\<in>set cs. \<forall>d\<in>set cs. xml_to_canonical c = xml_to_canonical d \<longrightarrow>
           flatten c (path @ ''/'' @ strip_ns t) = flatten d (path @ ''/'' @ strip_ns t)"
  shows "flatten (Elem t a x cs) path = flatten (Elem t a x ds) path"
proof -
  have "map (\<lambda>child. flatten child (path @ ''/'' @ strip_ns t)) (sort_key xml_to_canonical cs)
      = map (\<lambda>child. flatten child (path @ ''/'' @ strip_ns t)) (sort_key xml_to_canonical ds)"
    using assms by (rule sort_key_map_cong)
  then show ?thesis
    by (simp add: Let_def canonical_children [of t a x cs ds])
qed

text \<open>
  Claim C3 at a concrete pair of documents. The two groups under the root have the same
  signature and different children. The stable sort keeps them in document order, so
  the document and its copy with the two groups exchanged flatten differently and are
  reported as different, while the document compared with itself is reported as equal.
\<close>

theorem sibling_order_changes_status:
  "mset (children nested_ba) = mset (children nested_ab)
   \<and> compare_simple_xml (Some (xml_file nested_ab)) (Some (xml_file nested_ab)) = Inr (Some Ok)
   \<and> compare_simple_xml (Some (xml_file nested_ba)) (Some (xml_file nested_ab))
       = Inr (Some Different)"
proof -
  have ab: "flatten nested_ab [] =
      [(''/Root'', ''Root''), (''/Root/Group'', ''Group''), (''/Root/Group/A'', ''A''),
       (''/Root/Group'', ''Group''), (''/Root/Group/B'', ''B'')]"
    by code_simp
  have ba: "flatten nested_ba [] =
      [(''/Root'', ''Root''), (''/Root/Group'', ''Group''), (''/Root/Group/B'', ''B''),
       (''/Root/Group'', ''Group''), (''/Root/Group/A'', ''A'')]"
    by code_simp
  have m: "mset (children nested_ba) = mset (children nested_ab)"
    by (simp add: nested_ab_def nested_ba_def add.commute)
  show ?thesis
    using m by (simp add: compare_simple_xml_def parse_def xml_file_def rbind_def ab ba)
qed

section \<open>Fingerprints\<close>

lemma sort_mset_cong: "mset xs = mset ys \<Longrightarrow> sort xs = sort (ys :: 'a::linorder list)"
  by (rule properties_for_sort) simp_all

lemma mset_concat_map: "mset (concat (map f xs)) = (\<Sum>x\<in>#mset xs. mset (f x))"
  by (induction xs) simp_all

lemma mset_concat_map_cong:
  assumes "list_all2 R xs ys" and "\<And>x y. R x y \<Longrightarrow> mset (f x) = mset (f y)"
  shows "mset (concat (map f xs)) = mset (concat (map f ys))"
  using assms by (induction xs ys rule: list_all2_induct) simp_all

lemma fingerprint_parts:
  "inline_element_fingerprint elem =
     join ''|''
       ([xml_get_default elem ''Type'' []]
        @ sort (map prop_part (findall elem ''Property''))
        @ sort (concat (map (\<lambda>rel. concat (map (rel_entry_parts rel) (findall rel ''Entry'')))
                          (findall elem ''Relationship'')))
        @ sort (map ann_part (findall elem ''AttachedAnnotation'')))"
  by (subst inline_element_fingerprint.simps) (simp add: rel_entry_parts_def [abs_def] Let_def)

text \<open>
  What does hold of the fingerprint: it does not depend on the order of the properties,
  of the relationships, of the entries of a relationship, or of the annotations of the
  element.
\<close>

lemma fingerprint_parts_reordered:
  assumes "parts_reordered a b"
  shows "inline_element_fingerprint a = inline_element_fingerprint b"
proof -
  from assms obtain rs where
    at: "attrib a = attrib b"
    and p: "mset (findall a ''Property'') = mset (findall b ''Property'')"
    and n: "mset (findall a ''AttachedAnnotation'') = mset (findall b ''AttachedAnnotation'')"
    and rs: "mset rs = mset (findall b ''Relationship'')"
    and r: "list_all2 entries_reordered (findall a ''Relationship'') rs"
    by (auto simp: parts_reordered_def)
  let ?F = "\<lambda>rel. concat (map (rel_entry_parts rel) (findall rel ''Entry''))"
  have t: "xml_get_default a ''Type'' [] = xml_get_default b ''Type'' []"
    using at by (simp add: xml_get_default_def xml_get_def)
  have pp: "sort (map prop_part (findall a ''Property''))
              = sort (map prop_part (findall b ''Property''))"
    using p by (intro sort_mset_cong) (metis mset_map)
  have aa: "sort (map ann_part (findall a ''AttachedAnnotation''))
              = sort (map ann_part (findall b ''AttachedAnnotation''))"
    using n by (intro sort_mset_cong) (metis mset_map)
  have one: "mset (?F x) = mset (?F y)" if "entries_reordered x y" for x y
  proof -
    have nm: "xml_get x ''Name'' = xml_get y ''Name''"
      using that by (simp add: entries_reordered_def xml_get_def)
    have "rel_entry_parts x = rel_entry_parts y"
      by (simp add: rel_entry_parts_def fun_eq_iff nm split: option.splits)
    moreover have "mset (findall x ''Entry'') = mset (findall y ''Entry'')"
      using that by (simp add: entries_reordered_def)
    ultimately show ?thesis by (simp add: mset_concat_map)
  qed
  have "mset (concat (map ?F (findall a ''Relationship''))) = mset (concat (map ?F rs))"
    using r one by (rule mset_concat_map_cong)
  also have "\<dots> = mset (concat (map ?F (findall b ''Relationship'')))"
    using rs by (simp add: mset_concat_map)
  finally have rr: "sort (concat (map ?F (findall a ''Relationship'')))
                      = sort (concat (map ?F (findall b ''Relationship'')))"
    by (rule sort_mset_cong)
  show ?thesis
    by (simp only: fingerprint_parts t pp rr aa)
qed

text \<open>
  Claim C4 at a concrete pair of inline elements. Both carry one annotation of type
  \<open>T\<close> with the properties \<open>A = 1\<close> and \<open>B = 2\<close>, written in the two possible orders.
  \<^verbatim>\<open>get_annotations\<close> sorts the items of the property dictionary and gives the same list
  for both; \<^verbatim>\<open>inline_element_fingerprint\<close> prints the dictionary as it stands, in
  insertion order, and gives two different fingerprints, so that two tables holding
  these columns inline are reported as different.
\<close>

theorem fingerprint_depends_on_annotation_property_order:
  "get_annotations (column_with_ann [xprop ''A'' ''1'', xprop ''B'' ''2''])
     = get_annotations (column_with_ann [xprop ''B'' ''2'', xprop ''A'' ''1''])
   \<and> inline_element_fingerprint (column_with_ann [xprop ''A'' ''1'', xprop ''B'' ''2''])
       = ''SqlSimpleColumn|A:T={'' @ repr_str ''A'' @ '': '' @ repr_str ''1'' @ '', ''
           @ repr_str ''B'' @ '': '' @ repr_str ''2'' @ ''}''
   \<and> inline_element_fingerprint (column_with_ann [xprop ''B'' ''2'', xprop ''A'' ''1''])
       = ''SqlSimpleColumn|A:T={'' @ repr_str ''B'' @ '': '' @ repr_str ''2'' @ '', ''
           @ repr_str ''A'' @ '': '' @ repr_str ''1'' @ ''}''
   \<and> inline_element_fingerprint (column_with_ann [xprop ''A'' ''1'', xprop ''B'' ''2''])
       \<noteq> inline_element_fingerprint (column_with_ann [xprop ''B'' ''2'', xprop ''A'' ''1''])
   \<and> diff_element
         (table_with_inline (column_with_ann [xprop ''A'' ''1'', xprop ''B'' ''2'']))
         (table_with_inline (column_with_ann [xprop ''B'' ''2'', xprop ''A'' ''1'']))
       = Inr [''    Relationship '' @ quoted ''Columns''
                @ '': 1 only in dotnet, 1 only in rust'']"
proof -
  have g: "get_annotations (column_with_ann [xprop ''A'' ''1'', xprop ''B'' ''2''])
     = get_annotations (column_with_ann [xprop ''B'' ''2'', xprop ''A'' ''1''])"
    by code_simp
  have ab: "inline_element_fingerprint (column_with_ann [xprop ''A'' ''1'', xprop ''B'' ''2''])
       = ''SqlSimpleColumn|A:T={'' @ repr_str ''A'' @ '': '' @ repr_str ''1'' @ '', ''
           @ repr_str ''B'' @ '': '' @ repr_str ''2'' @ ''}''"
    by code_simp
  have ba: "inline_element_fingerprint (column_with_ann [xprop ''B'' ''2'', xprop ''A'' ''1''])
       = ''SqlSimpleColumn|A:T={'' @ repr_str ''B'' @ '': '' @ repr_str ''2'' @ '', ''
           @ repr_str ''A'' @ '': '' @ repr_str ''1'' @ ''}''"
    by code_simp
  have ne: "inline_element_fingerprint (column_with_ann [xprop ''A'' ''1'', xprop ''B'' ''2''])
       \<noteq> inline_element_fingerprint (column_with_ann [xprop ''B'' ''2'', xprop ''A'' ''1''])"
    unfolding ab ba by code_simp
  have d: "diff_element
         (table_with_inline (column_with_ann [xprop ''A'' ''1'', xprop ''B'' ''2'']))
         (table_with_inline (column_with_ann [xprop ''B'' ''2'', xprop ''A'' ''1'']))
       = Inr [''    Relationship '' @ quoted ''Columns''
                @ '': 1 only in dotnet, 1 only in rust'']"
    by code_simp
  show ?thesis using g ab ba ne d by blast
qed

section \<open>The exit code\<close>






lemma exit_code_iff: "exit_code fr mr = 1 \<longleftrightarrow> has_diffs fr mr"
  and exit_code_zero_iff: "exit_code fr mr = 0 \<longleftrightarrow> \<not> has_diffs fr mr"
  by (simp_all add: exit_code_def)








section \<open>The stages of a run\<close>

lemma main_stages:
  "main a b =
     (case simple_xml_results a b (dict_set [] ''Origin.xml'' (Some Ok)) of
        Inl e \<Rightarrow> abort [] e
      | Inr r1 \<Rightarrow> model_step a b (unexpected_files a b (text_results a b r1)))"
  by (simp only: main_def)

lemma exit_status_abort [simp]: "exit_status (abort err e) = 1"
  by (simp add: exit_status_def abort_def)

lemma exit_status_finish [simp]: "exit_status (finish err fr mr) = exit_code fr mr"
  by (simp add: exit_status_def finish_def)




lemma rbind_Inr_simp [simp]: "rbind (Inr x) f = f x"
  by (simp add: rbind_def)

lemma rbind_Inl_simp [simp]: "rbind (Inl e) f = Inl e"
  by (simp add: rbind_def)






lemma missing_status_not_ok [simp]: "missing_status a b l \<noteq> Ok"
  by (simp add: missing_status_def)







section \<open>The provenance file\<close>














text \<open>A document with the overwritten elements removed: each key keeps the element that
  the index holds for it.\<close>

section \<open>Indexing the elements\<close>

lemma index_step_fst:
  "fst (foldl (\<lambda>(index, duplicates) elem.
                 let key = element_key elem
                 in (dict_set index key elem,
                     if key \<in> set (dict_keys index) then duplicates @ [key] else duplicates))
          (i, d) es)
     = foldl (\<lambda>index elem. dict_set index (element_key elem) elem) i es"
  by (induction es arbitrary: i d) (simp_all add: Let_def)

lemma index_elements_fst:
  "fst (index_elements m)
     = foldl (\<lambda>index elem. dict_set index (element_key elem) elem) [] (findall m ''Element'')"
  by (simp add: index_elements_def index_step_fst)

lemma index_elements_map_of:
  "map_of (fst (index_elements m))
     = map_of (rev (map (\<lambda>e. (element_key e, e)) (findall m ''Element'')))"
  by (simp add: index_elements_fst map_of_foldl_dict_set)

lemma index_elements_keys:
  "set (dict_keys (fst (index_elements m))) = element_key ` set (findall m ''Element'')"
  by (simp add: index_elements_fst keys_foldl_dict_set)

lemma distinct_dict_set:
  "distinct (dict_keys d) \<Longrightarrow> distinct (dict_keys (dict_set d k v))"
proof (induction d)
  case Nil
  show ?case by (simp add: dict_keys_def)
next
  case (Cons x d)
  then have "distinct (dict_keys (dict_set d k v))" by (simp add: dict_keys_def)
  moreover have "set (dict_keys (dict_set d k v)) = insert k (set (dict_keys d))"
    by (rule keys_dict_set)
  ultimately show ?case using Cons.prems by (cases x) (auto simp: dict_keys_def)
qed

lemma distinct_foldl_dict_set:
  "distinct (dict_keys d) \<Longrightarrow>
     distinct (dict_keys (foldl (\<lambda>d x. dict_set d (kf x) (vf x)) d xs))"
  by (induction xs arbitrary: d) (simp_all add: distinct_dict_set)

lemma index_elements_distinct: "distinct (dict_keys (fst (index_elements m)))"
  by (simp add: index_elements_fst distinct_foldl_dict_set)

lemma index_elements_last:
  assumes "findall m ''Element'' = es @ [e] @ fs"
    and "\<forall>f\<in>set fs. element_key f \<noteq> element_key e"
  shows "map_of (fst (index_elements m)) (element_key e) = Some e"
proof -
  have "map_of (rev (map (\<lambda>e. (element_key e, e)) fs)) (element_key e) = None"
    using assms(2) by (auto simp: map_of_eq_None_iff image_iff)
  then show ?thesis
    using assms(1) by (simp add: index_elements_map_of map_add_def)
qed

lemma index_step_snoc:
  "index_elements (Elem t a x (cs @ [c]))
     = (if tag c = NS_BRACKET @ ''Element'' then
          (dict_set (fst (index_elements (Elem t a x cs))) (element_key c) c,
           if element_key c \<in> set (dict_keys (fst (index_elements (Elem t a x cs))))
           then snd (index_elements (Elem t a x cs)) @ [element_key c]
           else snd (index_elements (Elem t a x cs)))
        else index_elements (Elem t a x cs))"
  by (simp add: index_elements_def findall_def Let_def split: prod.splits)

lemma duplicates_count:
  "count_list (snd (index_elements (Elem t a x cs))) k
     = count_list (map element_key (findall (Elem t a x cs) ''Element'')) k - 1"
proof (induction cs rule: rev_induct)
  case Nil
  show ?case by (simp add: index_elements_def findall_def)
next
  case (snoc c cs)
  let ?ks = "map element_key (findall (Elem t a x cs) ''Element'')"
  have seen: "element_key c \<in> set (dict_keys (fst (index_elements (Elem t a x cs))))
                \<longleftrightarrow> count_list ?ks (element_key c) \<noteq> 0"
    by (simp add: index_elements_keys count_list_0_iff)
  have f: "findall (Elem t a x (cs @ [c])) ''Element''
             = findall (Elem t a x cs) ''Element''
               @ (if tag c = NS_BRACKET @ ''Element'' then [c] else [])"
    by (simp add: findall_def)
  show ?case
  proof (cases "tag c = NS_BRACKET @ ''Element''")
    case False
    then show ?thesis using snoc.IH by (simp add: index_step_snoc f)
  next
    case True
    show ?thesis
    proof (cases "element_key c = k")
      case False
      then show ?thesis using True snoc.IH by (simp add: index_step_snoc f)
    next
      case k: True
      show ?thesis
      proof (cases "count_list ?ks k = 0")
        case False
        then show ?thesis
          using \<open>tag c = NS_BRACKET @ ''Element''\<close> k snoc.IH seen
          by (simp add: index_step_snoc f)
      next
        case True
        then show ?thesis
          using \<open>tag c = NS_BRACKET @ ''Element''\<close> k snoc.IH seen
          by (simp add: index_step_snoc f)
      qed
    qed
  qed
qed

lemma distinct_count_list:
  "distinct xs \<longleftrightarrow> (\<forall>k. count_list xs k \<le> 1)"
proof (induction xs)
  case Nil
  show ?case by simp
next
  case (Cons x xs)
  have "(\<forall>k. count_list (x # xs) k \<le> 1) \<longleftrightarrow> count_list xs x = 0 \<and> (\<forall>k. count_list xs k \<le> 1)"
  proof
    assume h: "\<forall>k. count_list (x # xs) k \<le> 1"
    have "count_list xs x = 0" using h [rule_format, of x] by simp
    moreover have "count_list xs k \<le> 1" for k
      using h [rule_format, of k] by (simp split: if_splits)
    ultimately show "count_list xs x = 0 \<and> (\<forall>k. count_list xs k \<le> 1)" by simp
  next
    assume "count_list xs x = 0 \<and> (\<forall>k. count_list xs k \<le> 1)"
    then show "\<forall>k. count_list (x # xs) k \<le> 1" by simp
  qed
  then show ?case using Cons.IH by (simp add: count_list_0_iff)
qed

lemma empty_count_list: "xs = [] \<longleftrightarrow> (\<forall>k. count_list xs k = 0)"
  by (simp add: count_list_0_iff)

lemma duplicates_empty_iff:
  "snd (index_elements m) = [] \<longleftrightarrow> distinct (map element_key (findall m ''Element''))"
proof -
  obtain t a x cs where m: "m = Elem t a x cs" by (cases m)
  have c: "count_list (snd (index_elements m)) k
             = count_list (map element_key (findall m ''Element'')) k - 1" for k
    unfolding m by (rule duplicates_count)
  show ?thesis
    unfolding empty_count_list [of "snd (index_elements m)"] distinct_count_list c
    by simp
qed

lemma dict_set_fresh: "k \<notin> set (dict_keys d) \<Longrightarrow> dict_set d k v = d @ [(k, v)]"
  by (induction d) (auto simp: dict_keys_def)

lemma index_of_alist:
  assumes "distinct (dict_keys (i @ d))"
    and "\<forall>kv\<in>set d. element_key (snd kv) = fst kv"
  shows "foldl (\<lambda>(index, duplicates) elem.
                 let key = element_key elem
                 in (dict_set index key elem,
                     if key \<in> set (dict_keys index) then duplicates @ [key] else duplicates))
          (i, dups) (map snd d)
         = (i @ d, dups)"
  using assms
proof (induction d arbitrary: i)
  case Nil
  show ?case by simp
next
  case (Cons kv d)
  obtain k e where kv: "kv = (k, e)" by (cases kv)
  have key: "element_key e = k" using Cons.prems(2) kv by simp
  have fresh: "k \<notin> set (dict_keys i)" using Cons.prems(1) kv by (auto simp: dict_keys_def)
  have d1: "distinct (dict_keys ((i @ [(k, e)]) @ d))" using Cons.prems(1) kv by simp
  have d2: "\<forall>kv\<in>set d. element_key (snd kv) = fst kv" using Cons.prems(2) by simp
  show ?case
    using Cons.IH [OF d1 d2] fresh by (simp add: kv key Let_def dict_set_fresh)
qed

lemma index_entries:
  assumes "kv \<in> set (fst (index_elements m))"
  shows "snd kv \<in> set (findall m ''Element'')" and "element_key (snd kv) = fst kv"
proof -
  obtain k e where kv: "kv = (k, e)" by (cases kv)
  have "distinct (map fst (fst (index_elements m)))"
    using index_elements_distinct [of m] by (simp add: dict_keys_def)
  then have "map_of (fst (index_elements m)) k = Some e"
    using assms kv by simp
  then have "map_of (rev (map (\<lambda>e. (element_key e, e)) (findall m ''Element''))) k = Some e"
    by (simp add: index_elements_map_of)
  then have "(k, e) \<in> set (rev (map (\<lambda>e. (element_key e, e)) (findall m ''Element'')))"
    by (rule map_of_SomeD)
  then show "snd kv \<in> set (findall m ''Element'')" and "element_key (snd kv) = fst kv"
    using kv by auto
qed

lemma dedup_model_index: "index_elements (dedup_model m) = (fst (index_elements m), [])"
proof -
  let ?d = "fst (index_elements m)"
  have "tag (snd kv) = NS_BRACKET @ ''Element''" if "kv \<in> set ?d" for kv
    using index_entries(1) [OF that] by (simp add: findall_def)
  then have f: "findall (dedup_model m) ''Element'' = map snd ?d"
    by (simp add: dedup_model_def findall_def filter_id_conv)
  have "distinct (dict_keys ([] @ ?d))" using index_elements_distinct [of m] by simp
  moreover have "\<forall>kv\<in>set ?d. element_key (snd kv) = fst kv"
    using index_entries(2) by blast
  ultimately show ?thesis
    unfolding index_elements_def [of "dedup_model m"] f
    using index_of_alist [of "[]" ?d "[]"] by simp
qed

lemma findall_map_same_tag:
  assumes "\<And>c. tag (g c) = tag c"
  shows "findall (Elem t a x (map g cs)) n = map g (findall (Elem t a x cs) n)"
  by (simp add: findall_def filter_map o_def assms)

lemma dedup_root_tag: "tag (if tag c = NS_BRACKET @ ''Model'' then dedup_model c else c) = tag c"
  by (simp add: dedup_model_def)

lemma dedup_root_findall:
  "findall (dedup_root r) n
     = map (\<lambda>c. if tag c = NS_BRACKET @ ''Model'' then dedup_model c else c) (findall r n)"
proof -
  obtain t a x cs where r: "r = Elem t a x cs" by (cases r)
  show ?thesis
    unfolding r dedup_root_def xml.sel
    by (rule findall_map_same_tag) (rule dedup_root_tag)
qed

lemma dedup_root_header: "find_first (dedup_root r) ''Header'' = find_first r ''Header''"
proof -
  have "map (\<lambda>c. if tag c = NS_BRACKET @ ''Model'' then dedup_model c else c) (findall r ''Header'')
          = findall r ''Header''"
    by (rule map_idI) (simp add: findall_def)
  then show ?thesis
    by (simp add: find_first_def dedup_root_findall)
qed

lemma dedup_root_model:
  "find_first (dedup_root r) ''Model'' = map_option dedup_model (find_first r ''Model'')"
proof -
  have "map (\<lambda>c. if tag c = NS_BRACKET @ ''Model'' then dedup_model c else c) (findall r ''Model'')
          = map dedup_model (findall r ''Model'')"
    by (rule map_cong) (simp_all add: findall_def)
  then show ?thesis
    by (simp add: find_first_def dedup_root_findall split: list.splits)
qed

lemma compare_model_xml_dedup:
  "compare_model_xml (dedup_root ra) (dedup_root rb) = ([], snd (compare_model_xml ra rb))"
  by (simp add: compare_model_xml_def dedup_root_header dedup_root_model dedup_model_index
      duplicate_warning_def Let_def split: option.splits)

lemma model_step_passes:
  assumes "map_of a ''model.xml'' = Some fa" and "fxml fa = Some ra"
    and "map_of b ''model.xml'' = Some fb" and "fxml fb = Some rb"
  shows "stderr (model_step a b r) = fst (compare_model_xml ra rb)"
    and "outcome (model_step a b r)
           = (case snd (compare_model_xml ra rb) of
                Inl e \<Rightarrow> Inl e
              | Inr res \<Rightarrow> Inr (r, Some res, exit_code r (Some res)))"
  using assms
  by (auto simp: model_step_def parse_def finish_def abort_def split: prod.splits sum.splits)

lemma duplicate_warning_head:
  "dupes \<noteq> [] \<Longrightarrow>
     (''WARNING: '' @ str_nat (length dupes) @ '' duplicate keys in '' @ side @ '' model.xml'')
       \<in> set (duplicate_warning side dupes)"
  by (simp add: duplicate_warning_def)

lemma compare_model_xml_stderr:
  assumes "find_first ra ''Model'' = Some ma" and "find_first rb ''Model'' = Some mb"
  shows "fst (compare_model_xml ra rb)
           = duplicate_warning ''rust'' (snd (index_elements ma))
             @ duplicate_warning ''dotnet'' (snd (index_elements mb))"
  using assms by (simp add: compare_model_xml_def Let_def)

text \<open>
  Claim C9. When several elements of one document resolve to the same key, the index
  holds the last of them for that key, and its keys are distinct. Every repeated
  occurrence of a key is recorded once as a duplicate, and the warning with their number
  is written to the diagnostic stream. Indexing has no failing branch, and the result of
  the comparison is the result on the documents from which the overwritten elements have
  been removed, where nothing is written; the outcome and the exit code of the run are
  computed from that result and do not read the diagnostic stream.
\<close>

theorem duplicate_keys_are_tolerated:
  "(\<forall>es e fs. findall m ''Element'' = es @ [e] @ fs
        \<and> (\<forall>f\<in>set fs. element_key f \<noteq> element_key e)
        \<longrightarrow> map_of (fst (index_elements m)) (element_key e) = Some e)
   \<and> distinct (dict_keys (fst (index_elements m)))
   \<and> (\<forall>k. count_list (snd (index_elements m)) k
            = count_list (map element_key (findall m ''Element'')) k - 1)
   \<and> (snd (index_elements m) \<noteq> [] \<longleftrightarrow> \<not> distinct (map element_key (findall m ''Element'')))
   \<and> (find_first ra ''Model'' = Some m \<and> find_first rb ''Model'' = Some mb
        \<and> snd (index_elements m) \<noteq> [] \<longrightarrow>
        (''WARNING: '' @ str_nat (length (snd (index_elements m)))
           @ '' duplicate keys in rust model.xml'') \<in> set (fst (compare_model_xml ra rb)))
   \<and> (find_first ra ''Model'' = Some m \<and> find_first rb ''Model'' = Some mb
        \<and> snd (index_elements mb) \<noteq> [] \<longrightarrow>
        (''WARNING: '' @ str_nat (length (snd (index_elements mb)))
           @ '' duplicate keys in dotnet model.xml'') \<in> set (fst (compare_model_xml ra rb)))
   \<and> index_elements (dedup_model m) = (fst (index_elements m), [])
   \<and> compare_model_xml (dedup_root ra) (dedup_root rb) = ([], snd (compare_model_xml ra rb))
   \<and> (\<forall>fa fb. map_of a ''model.xml'' = Some fa \<and> fxml fa = Some ra
        \<and> map_of b ''model.xml'' = Some fb \<and> fxml fb = Some rb \<longrightarrow>
        stderr (model_step a b r) = fst (compare_model_xml ra rb)
        \<and> outcome (model_step a b r)
            = (case snd (compare_model_xml ra rb) of
                 Inl e \<Rightarrow> Inl e
               | Inr res \<Rightarrow> Inr (r, Some res, exit_code r (Some res))))"
proof (intro conjI allI impI)
  show "map_of (fst (index_elements m)) (element_key e) = Some e"
    if "findall m ''Element'' = es @ [e] @ fs \<and> (\<forall>f\<in>set fs. element_key f \<noteq> element_key e)"
    for es e fs
    using that index_elements_last [of m es e fs] by simp
  show "distinct (dict_keys (fst (index_elements m)))"
    by (rule index_elements_distinct)
  show "count_list (snd (index_elements m)) k
            = count_list (map element_key (findall m ''Element'')) k - 1" for k
    using duplicates_count by (cases m) simp
  show "snd (index_elements m) \<noteq> [] \<longleftrightarrow> \<not> distinct (map element_key (findall m ''Element''))"
    by (simp add: duplicates_empty_iff)
  show "(''WARNING: '' @ str_nat (length (snd (index_elements m)))
           @ '' duplicate keys in rust model.xml'') \<in> set (fst (compare_model_xml ra rb))"
    if "find_first ra ''Model'' = Some m \<and> find_first rb ''Model'' = Some mb
        \<and> snd (index_elements m) \<noteq> []"
    using that duplicate_warning_head [of "snd (index_elements m)" "''rust''"]
    by (simp add: compare_model_xml_stderr [of ra m rb mb])
  show "(''WARNING: '' @ str_nat (length (snd (index_elements mb)))
           @ '' duplicate keys in dotnet model.xml'') \<in> set (fst (compare_model_xml ra rb))"
    if "find_first ra ''Model'' = Some m \<and> find_first rb ''Model'' = Some mb
        \<and> snd (index_elements mb) \<noteq> []"
    using that duplicate_warning_head [of "snd (index_elements mb)" "''dotnet''"]
    by (simp add: compare_model_xml_stderr [of ra m rb mb])
  show "index_elements (dedup_model m) = (fst (index_elements m), [])"
    by (rule dedup_model_index)
  show "compare_model_xml (dedup_root ra) (dedup_root rb) = ([], snd (compare_model_xml ra rb))"
    by (rule compare_model_xml_dedup)
  show "stderr (model_step a b r) = fst (compare_model_xml ra rb)"
    if "map_of a ''model.xml'' = Some fa \<and> fxml fa = Some ra
        \<and> map_of b ''model.xml'' = Some fb \<and> fxml fb = Some rb" for fa fb
    using that model_step_passes(1) [of a fa ra b fb rb r] by simp
  show "outcome (model_step a b r)
            = (case snd (compare_model_xml ra rb) of
                 Inl e \<Rightarrow> Inl e
               | Inr res \<Rightarrow> Inr (r, Some res, exit_code r (Some res)))"
    if "map_of a ''model.xml'' = Some fa \<and> fxml fa = Some ra
        \<and> map_of b ''model.xml'' = Some fb \<and> fxml fb = Some rb" for fa fb
    using that model_step_passes(2) [of a fa ra b fb rb r] by simp
qed

theorem duplicate_keys_are_tolerated_witness:
  "findall (el ''Model'' [] [table_with_props [xprop ''A'' ''1''], table_with_props [xprop ''A'' ''2'']])
       ''Element''
     = [table_with_props [xprop ''A'' ''1''] ] @ [table_with_props [xprop ''A'' ''2''] ] @ []
   \<and> map_of (fst (index_elements
          (el ''Model'' [] [table_with_props [xprop ''A'' ''1''], table_with_props [xprop ''A'' ''2'']])))
        (element_key (table_with_props [xprop ''A'' ''2'']))
       = Some (table_with_props [xprop ''A'' ''2''])
   \<and> snd (index_elements
          (el ''Model'' [] [table_with_props [xprop ''A'' ''1''], table_with_props [xprop ''A'' ''2'']]))
       \<noteq> []
   \<and> (''WARNING: '' @ str_nat (length (snd (index_elements
          (el ''Model'' [] [table_with_props [xprop ''A'' ''1''], table_with_props [xprop ''A'' ''2'']]))))
           @ '' duplicate keys in rust model.xml'')
       \<in> set (fst (compare_model_xml
            (model_of [table_with_props [xprop ''A'' ''1''], table_with_props [xprop ''A'' ''2'']])
            (model_of [table_with_props [xprop ''A'' ''2'']])))"
proof -
  let ?m = "el ''Model'' [] [table_with_props [xprop ''A'' ''1''], table_with_props [xprop ''A'' ''2'']]"
  let ?mb = "el ''Model'' [] [table_with_props [xprop ''A'' ''2'']]"
  let ?ra = "model_of [table_with_props [xprop ''A'' ''1''], table_with_props [xprop ''A'' ''2'']]"
  let ?rb = "model_of [table_with_props [xprop ''A'' ''2'']]"
  have f: "findall ?m ''Element''
     = [table_with_props [xprop ''A'' ''1''] ] @ [table_with_props [xprop ''A'' ''2''] ] @ []"
    by (simp add: el_def findall_def table_with_props_def)
  have k: "element_key (table_with_props ps) = Key2 (Some ''SqlTable'') ''[dbo].[Foo]''" for ps
    by (simp add: element_key_def table_with_props_def el_def xml_get_def)
  have nd: "\<not> distinct (map element_key (findall ?m ''Element''))"
    unfolding f by (simp add: k)
  have ma: "find_first ?ra ''Model'' = Some ?m"
    by (simp add: model_of_def find_first_def findall_def el_def)
  have mb: "find_first ?rb ''Model'' = Some ?mb"
    by (simp add: model_of_def find_first_def findall_def el_def)
  note t = duplicate_keys_are_tolerated [of ?m ?ra ?rb ?mb "[]" "[]" "[]"]
  have 1: "map_of (fst (index_elements ?m)) (element_key (table_with_props [xprop ''A'' ''2'']))
       = Some (table_with_props [xprop ''A'' ''2''])"
    using t [THEN conjunct1, rule_format,
        of "[table_with_props [xprop ''A'' ''1''] ]" "table_with_props [xprop ''A'' ''2'']" "[]"] f
    by simp
  have 2: "snd (index_elements ?m) \<noteq> []"
    using t [THEN conjunct2, THEN conjunct2, THEN conjunct2, THEN conjunct1] nd by simp
  have 3: "(''WARNING: '' @ str_nat (length (snd (index_elements ?m)))
           @ '' duplicate keys in rust model.xml'') \<in> set (fst (compare_model_xml ?ra ?rb))"
    using t [THEN conjunct2, THEN conjunct2, THEN conjunct2, THEN conjunct2, THEN conjunct1]
      ma mb 2 by simp
  show ?thesis using f 1 2 3 by simp
qed

text \<open>
  Elements as the schema of the package has them: every property and every relationship
  carries a name, and the properties of an annotation carry a name and a value. On such
  elements no comparison meets \<^verbatim>\<open>None\<close>.
\<close>

section \<open>An element against itself\<close>



















section \<open>A package against itself\<close>



lemma py_sort_Nil [simp]: "py_sort ok f [] = Inr []"
  by (simp add: py_sort_def)



lemma filter_not_in_self [simp]: "filter (\<lambda>k. k \<notin> set ks) ks = []"
  by (simp add: filter_empty_conv)

lemma filter_in_self [simp]: "filter (\<lambda>k. k \<in> set ks) ks = ks"
  by (simp add: filter_id_conv)




















end
